theory Spec2Isabelle
  imports Complex_Main "HOL-Library.Word" "HOL-Library.Multiset" "HOL-Library.Log_Nat"
begin

section \<open>JavaScript values\<close>

text \<open>
  A JavaScript string is a sequence of UTF-16 code units. The empty string is the only
  falsy string. \<open>str\<close> writes an ASCII literal as such a string.
\<close>

type_synonym jsstring = "16 word list"

definition str :: "string \<Rightarrow> jsstring" where
  "str s = map of_char s"

text \<open>
  \<open>String.prototype.trim\<close> removes leading and trailing code units that are WhiteSpace or
  LineTerminator in ECMAScript: TAB, LF, VT, FF, CR, SP, NBSP, the Unicode space
  separators, LS, PS and the byte order mark.
\<close>

definition isWhiteSpace :: "16 word \<Rightarrow> bool" where
  "isWhiteSpace c \<longleftrightarrow>
     c \<in> set [0x0009, 0x000A, 0x000B, 0x000C, 0x000D, 0x0020, 0x00A0, 0x1680,
              0x2000, 0x2001, 0x2002, 0x2003, 0x2004, 0x2005, 0x2006, 0x2007,
              0x2008, 0x2009, 0x200A, 0x2028, 0x2029, 0x202F, 0x205F, 0x3000, 0xFEFF]"

definition trim :: "jsstring \<Rightarrow> jsstring" where
  "trim s = rev (dropWhile isWhiteSpace (rev (dropWhile isWhiteSpace s)))"

text \<open>
  A JavaScript number is an IEEE 754 double. \<open>double x\<close> is the double nearest to the
  rational \<open>x\<close>: with \<open>e = binaryExponent \<bar>x\<bar>\<close>, the power of two at or below \<open>\<bar>x\<bar>\<close>,
  the 53-bit significand makes the result a multiple of \<open>2 powi (e - 52)\<close>, and a tie goes
  to the even multiple. The exponent range is not bounded here (no infinity, no subnormal
  number), so \<open>double\<close> is the IEEE rounding for magnitudes from \<open>2 powi (- 1022)\<close> up to
  the largest double; every integer up to \<open>2 ^ 53\<close> is a double. The quotient and the
  product of two doubles are the exact result rounded in this way.
\<close>

definition roundTiesToEven :: "rat \<Rightarrow> int" where
  "roundTiesToEven x =
     (let n = \<lfloor>x\<rfloor>; r = x - of_int n
      in if r < 1 / 2 then n else if 1 / 2 < r then n + 1 else if even n then n else n + 1)"

definition binaryExponent :: "rat \<Rightarrow> int" where
  "binaryExponent x =
     (case quotient_of x of
        (p, q) \<Rightarrow> let e = bitlen p - bitlen q in if power_int 2 e \<le> x then e else e - 1)"

definition double :: "rat \<Rightarrow> rat" where
  "double x =
     (if x = 0 then 0
      else let ulp = power_int 2 (binaryExponent \<bar>x\<bar> - 52)
           in sgn x * of_int (roundTiesToEven (\<bar>x\<bar> / ulp)) * ulp)"

text \<open>
  \<open>Math.round\<close> gives the integer nearest to its argument, a tie going towards plus
  infinity.
\<close>

definition Math_round :: "rat \<Rightarrow> int" where
  "Math_round x = \<lfloor>x + 1 / 2\<rfloor>"

text \<open>
  A property read \<open>obj[key]\<close> on a plain object finds the own property of the object, and
  for a key the object does not have, the property of that name of \<open>Object.prototype\<close>.
  These are its property names; each of them reads as a function or an object, which is
  truthy.
\<close>

definition objectPrototypeNames :: "jsstring list" where
  "objectPrototypeNames =
     map str [''constructor'', ''toString'', ''toLocaleString'', ''valueOf'', ''hasOwnProperty'',
              ''isPrototypeOf'', ''propertyIsEnumerable'', ''__defineGetter__'',
              ''__defineSetter__'', ''__lookupGetter__'', ''__lookupSetter__'', ''__proto__'']"

definition inheritedKey :: "jsstring \<Rightarrow> bool" where
  "inheritedKey key \<longleftrightarrow> key \<in> set objectPrototypeNames"

text \<open>
  \<open>Array.prototype.findIndex\<close>: the index of the first element that satisfies the
  predicate, \<open>-1\<close> when there is none.
\<close>

fun findIndexFrom :: "int \<Rightarrow> ('a \<Rightarrow> bool) \<Rightarrow> 'a list \<Rightarrow> int" where
  "findIndexFrom i P [] = -1"
| "findIndexFrom i P (x # xs) = (if P x then i else findIndexFrom (i + 1) P xs)"

definition findIndex :: "('a \<Rightarrow> bool) \<Rightarrow> 'a list \<Rightarrow> int" where
  "findIndex P xs = findIndexFrom 0 P xs"

text \<open>
  \<open>Array.prototype.sort\<close> with a comparator is a stable sort: \<open>a\<close> is placed before
  \<open>b\<close> when the comparator is negative, after it when positive, and elements that compare
  equal keep their order. Insertion from the right, each element going in front of the
  first element that does not have to precede it, is such a sort.
\<close>

fun insertBy :: "('a \<Rightarrow> 'a \<Rightarrow> int) \<Rightarrow> 'a \<Rightarrow> 'a list \<Rightarrow> 'a list" where
  "insertBy cmp x [] = [x]"
| "insertBy cmp x (y # ys) = (if cmp x y \<le> 0 then x # y # ys else y # insertBy cmp x ys)"

definition Array_sort :: "('a \<Rightarrow> 'a \<Rightarrow> int) \<Rightarrow> 'a list \<Rightarrow> 'a list" where
  "Array_sort cmp xs = foldr (insertBy cmp) xs []"

section \<open>Data of the progress channel\<close>

text \<open>
  The three numeric fields that a progress summary and a leaderboard entry share are
  declared once; \<open>LeaderboardEntry\<close> (use-progress-sync, compact-leaderboard) extends them.
\<close>

record ProgressStats =
  completed :: int
  total :: int
  percentage :: int

record LeaderboardEntry = ProgressStats +
  userId :: jsstring
  username :: jsstring
  lastUpdate :: jsstring

record ProgressUpdate =
  courseId :: jsstring
  fileKey :: jsstring
  isComplete :: bool

text \<open>The JSON messages the client sends, named by their \<open>type\<close> field, and what it
  receives: a leaderboard, the handshake acknowledgement, any other JSON value, or text
  that \<open>JSON.parse\<close> rejects.\<close>

datatype ClientMessage =
    msg_set_username jsstring
  | msg_progress_update jsstring jsstring bool jsstring
  | msg_request_leaderboard jsstring
  | msg_sync_study_items jsstring "jsstring list"

datatype ServerData =
    msg_leaderboard_update jsstring "LeaderboardEntry list"
  | msg_connected
  | other_json
  | not_json

datatype ReadyState = CONNECTING | OPEN | CLOSING | CLOSED

text \<open>
  The callbacks of \<open>useProgressSync\<close> are closures: \<open>connect\<close> and the socket handlers it
  installs read \<open>userId\<close>, \<open>courseId\<close> and \<open>username\<close> of the render that created the
  callback (its dependency list), \<open>sendProgressUpdate\<close> reads \<open>courseId\<close> and
  \<open>username\<close>. \<open>Render\<close> holds these captured values.
\<close>

record Render =
  r_userId :: "jsstring option"
  r_courseId :: jsstring
  r_username :: jsstring

record WebSocket =
  readyState :: ReadyState
  handlers :: Render

record Timer =
  delay :: nat
  callback :: Render
  pending :: bool

text \<open>
  The state of one browser tab: the completion map of \<open>ProgressProvider\<close>, the React state
  and the refs of one instance of \<open>useProgressSync\<close>, the dependencies of the last run of the connect
  effect, the function stored in \<open>window.__sendProgressUpdate\<close>, \<open>localStorage\<close>, every
  socket and timer created so far (a socket or a timer is named by its index), and the
  messages handed to \<open>ws.send\<close> in order, each with its socket.
\<close>

record Client =
  progress :: "jsstring \<rightharpoonup> (jsstring \<rightharpoonup> bool)"
  leaderboard :: "LeaderboardEntry list"
  isConnected :: bool
  usernameState :: jsstring
  userIdState :: "jsstring option"
  wsRef :: "nat option"
  reconnectTimeoutRef :: "nat option"
  pendingUpdatesRef :: "ProgressUpdate list"
  connectEffectDeps :: "Render option"
  sendProgressUpdateHook :: "Render option"
  localStorage :: "jsstring \<rightharpoonup> jsstring"
  sockets :: "WebSocket list"
  timers :: "Timer list"
  wire :: "(nat \<times> ClientMessage) list"

definition initialClient :: "(jsstring \<rightharpoonup> jsstring) \<Rightarrow> Client" where
  "initialClient storage =
     \<lparr>progress = Map.empty, leaderboard = [], isConnected = False, usernameState = [],
      userIdState = None, wsRef = None, reconnectTimeoutRef = None, pendingUpdatesRef = [],
      connectEffectDeps = None, sendProgressUpdateHook = None, localStorage = storage,
      sockets = [], timers = [], wire = []\<rparr>"

section \<open>The browser: sockets and timers\<close>

definition ws_send :: "nat \<Rightarrow> ClientMessage \<Rightarrow> Client \<Rightarrow> Client" where
  "ws_send ws m st = st\<lparr>wire := wire st @ [(ws, m)]\<rparr>"

definition setReadyState :: "nat \<Rightarrow> ReadyState \<Rightarrow> Client \<Rightarrow> Client" where
  "setReadyState ws r st = st\<lparr>sockets := (sockets st)[ws := (sockets st ! ws)\<lparr>readyState := r\<rparr>]\<rparr>"

text \<open>\<open>ws.close()\<close> starts the closing handshake of a socket that is not yet closing.\<close>

definition ws_close :: "nat \<Rightarrow> Client \<Rightarrow> Client" where
  "ws_close ws st =
     (if ws < length (sockets st) \<and> readyState (sockets st ! ws) \<in> {CONNECTING, OPEN}
      then setReadyState ws CLOSING st else st)"

definition clearTimeout :: "nat \<Rightarrow> Client \<Rightarrow> Client" where
  "clearTimeout t st =
     (if t < length (timers st)
      then st\<lparr>timers := (timers st)[t := (timers st ! t)\<lparr>pending := False\<rparr>]\<rparr> else st)"

text \<open>
  The test \<open>wsRef.current && wsRef.current.readyState === WebSocket.OPEN\<close>: the socket of
  the ref when it is open.
\<close>

definition openSocket :: "Client \<Rightarrow> nat option" where
  "openSocket st =
     (case wsRef st of
        None \<Rightarrow> None
      | Some ws \<Rightarrow>
          if ws < length (sockets st) \<and> readyState (sockets st ! ws) = OPEN
          then Some ws else None)"

section \<open>useProgressSync\<close>

text \<open>
  The hook runs in the browser only: the branches for \<open>typeof window === "undefined"\<close>
  belong to rendering on the server, where no effect, handler or timer runs. The polling
  effect, which sends \<open>request_leaderboard\<close> every five seconds on an open socket, and
  the unmount are left out.
\<close>

definition getUserId :: "jsstring \<Rightarrow> Client \<Rightarrow> jsstring \<times> Client" where
  "getUserId fresh st =
     (case localStorage st (str ''progress-user-id'') of
        Some v \<Rightarrow>
          if v \<noteq> [] then (v, st)
          else (fresh, st\<lparr>localStorage := (localStorage st)(str ''progress-user-id'' \<mapsto> fresh)\<rparr>)
      | None \<Rightarrow>
          (fresh, st\<lparr>localStorage := (localStorage st)(str ''progress-user-id'' \<mapsto> fresh)\<rparr>))"

definition getUsername :: "jsstring \<Rightarrow> Client \<Rightarrow> jsstring \<times> Client" where
  "getUsername generated st =
     (case localStorage st (str ''progress-username'') of
        Some v \<Rightarrow>
          if v \<noteq> [] then (v, st)
          else (generated,
                st\<lparr>localStorage := (localStorage st)(str ''progress-username'' \<mapsto> generated)\<rparr>)
      | None \<Rightarrow>
          (generated,
           st\<lparr>localStorage := (localStorage st)(str ''progress-username'' \<mapsto> generated)\<rparr>))"

text \<open>
  The first effect of the hook. The freshly generated id and name (time and random
  numbers in the source) are parameters.
\<close>

definition initIdentity :: "jsstring \<Rightarrow> jsstring \<Rightarrow> Client \<Rightarrow> Client" where
  "initIdentity fresh generated st =
     (case getUserId fresh st of
        (uid, st1) \<Rightarrow>
          (case getUsername generated st1 of
             (name, st2) \<Rightarrow> st2\<lparr>userIdState := Some uid, usernameState := name\<rparr>))"

definition updateUsername :: "jsstring \<Rightarrow> Client \<Rightarrow> Client" where
  "updateUsername newUsername st =
     (if trim newUsername = [] then st
      else
        let st1 = st\<lparr>usernameState := newUsername\<rparr>;
            st2 = st1\<lparr>localStorage := (localStorage st1)(str ''progress-username'' \<mapsto> newUsername)\<rparr>
        in case openSocket st2 of
             Some ws \<Rightarrow> ws_send ws (msg_set_username newUsername) st2
           | None \<Rightarrow> st2)"

text \<open>
  \<open>connect\<close>: nothing without a user id; otherwise a new socket whose handlers are closed
  over the same render, stored in \<open>wsRef\<close>. \<open>urlOk\<close> says for which user ids the
  \<open>WebSocket\<close> constructor accepts the URL; when it throws, the \<open>catch\<close> branch runs.
\<close>

definition connect :: "(jsstring \<Rightarrow> bool) \<Rightarrow> Render \<Rightarrow> Client \<Rightarrow> Client" where
  "connect urlOk env st =
     (case r_userId env of
        None \<Rightarrow> st
      | Some uid \<Rightarrow>
          if uid = [] then st
          else if urlOk uid then
            st\<lparr>sockets := sockets st @ [\<lparr>readyState = CONNECTING, handlers = env\<rparr>],
               wsRef := Some (length (sockets st))\<rparr>
          else st\<lparr>isConnected := False\<rparr>)"

definition flushMessage :: "Render \<Rightarrow> ProgressUpdate \<Rightarrow> ClientMessage" where
  "flushMessage env update =
     msg_progress_update (courseId update) (fileKey update) (isComplete update) (r_username env)"

definition ws_onopen :: "Render \<Rightarrow> nat \<Rightarrow> Client \<Rightarrow> Client" where
  "ws_onopen env ws st =
     (let st1 = st\<lparr>isConnected := True\<rparr>;
          st2 = (if length (pendingUpdatesRef st1) > 0
                 then (foldl (\<lambda>s update. ws_send ws (flushMessage env update) s)
                         st1 (pendingUpdatesRef st1))\<lparr>pendingUpdatesRef := []\<rparr>
                 else st1)
      in ws_send ws (msg_request_leaderboard (r_courseId env)) st2)"

definition ws_onmessage :: "Render \<Rightarrow> ServerData \<Rightarrow> Client \<Rightarrow> Client" where
  "ws_onmessage env data st =
     (case data of
        msg_leaderboard_update cid entries \<Rightarrow>
          if cid = r_courseId env then st\<lparr>leaderboard := entries\<rparr> else st
      | msg_connected \<Rightarrow> st
      | other_json \<Rightarrow> st
      | not_json \<Rightarrow> st)"

definition ws_onclose :: "Render \<Rightarrow> Client \<Rightarrow> Client" where
  "ws_onclose env st =
     (let st1 = st\<lparr>isConnected := False\<rparr>
      in st1\<lparr>timers := timers st1 @ [\<lparr>delay = 3000, callback = env, pending = True\<rparr>],
             reconnectTimeoutRef := Some (length (timers st1))\<rparr>)"

text \<open>
  The events the browser delivers: a connecting socket opens, an open socket receives a
  message, a socket closes (after an error, a close by the peer or \<open>ws.close()\<close>), a
  pending timer fires and calls the \<open>connect\<close> it was given.
\<close>

definition open_event :: "nat \<Rightarrow> Client \<Rightarrow> Client" where
  "open_event ws st =
     (if ws < length (sockets st) \<and> readyState (sockets st ! ws) = CONNECTING
      then ws_onopen (handlers (sockets st ! ws)) ws (setReadyState ws OPEN st) else st)"

definition message_event :: "nat \<Rightarrow> ServerData \<Rightarrow> Client \<Rightarrow> Client" where
  "message_event ws data st =
     (if ws < length (sockets st) \<and> readyState (sockets st ! ws) = OPEN
      then ws_onmessage (handlers (sockets st ! ws)) data st else st)"

definition close_event :: "nat \<Rightarrow> Client \<Rightarrow> Client" where
  "close_event ws st =
     (if ws < length (sockets st) \<and> readyState (sockets st ! ws) \<noteq> CLOSED
      then ws_onclose (handlers (sockets st ! ws)) (setReadyState ws CLOSED st) else st)"

definition timer_event :: "(jsstring \<Rightarrow> bool) \<Rightarrow> nat \<Rightarrow> Client \<Rightarrow> Client" where
  "timer_event urlOk t st =
     (if t < length (timers st) \<and> pending (timers st ! t)
      then connect urlOk (callback (timers st ! t)) (clearTimeout t st) else st)"

definition sendProgressUpdate :: "Render \<Rightarrow> jsstring \<Rightarrow> bool \<Rightarrow> Client \<Rightarrow> Client" where
  "sendProgressUpdate env fkey flag st =
     (let update = \<lparr>courseId = r_courseId env, fileKey = fkey, isComplete = flag\<rparr>
      in case openSocket st of
           Some ws \<Rightarrow> ws_send ws (flushMessage env update) st
         | None \<Rightarrow> st\<lparr>pendingUpdatesRef := pendingUpdatesRef st @ [update]\<rparr>)"

definition requestLeaderboardUpdate :: "Render \<Rightarrow> Client \<Rightarrow> Client" where
  "requestLeaderboardUpdate env st =
     (case openSocket st of
        Some ws \<Rightarrow>
          if r_courseId env \<noteq> [] then ws_send ws (msg_request_leaderboard (r_courseId env)) st
          else st
      | None \<Rightarrow> st)"

definition syncStudyItems :: "Render \<Rightarrow> jsstring list \<Rightarrow> Client \<Rightarrow> Client" where
  "syncStudyItems env fileKeys st =
     (case openSocket st of
        Some ws \<Rightarrow>
          if r_courseId env \<noteq> [] then ws_send ws (msg_sync_study_items (r_courseId env) fileKeys) st
          else st
      | None \<Rightarrow> st)"

text \<open>
  \<open>currentUserRank\<close> as the hook returns it: \<open>findIndex + 1\<close> when \<open>userId\<close> is truthy,
  and \<open>null\<close> unless that number is positive.
\<close>

definition currentUserRank :: "Client \<Rightarrow> int option" where
  "currentUserRank st =
     (let rank = (case userIdState st of
                    None \<Rightarrow> None
                  | Some uid \<Rightarrow>
                      if uid = [] then None
                      else Some (findIndex (\<lambda>entry. userId entry = uid) (leaderboard st) + 1))
      in case rank of
           None \<Rightarrow> None
         | Some r \<Rightarrow> if r > 0 then Some r else None)"

subsection \<open>The effects of a render\<close>

text \<open>
  React runs an effect after a render when one of its dependencies changed, and runs the
  cleanup of its previous run first. The dependencies of the connect effect are \<open>userId\<close>
  and \<open>connect\<close>, and \<open>connect\<close> is a new function exactly when \<open>userId\<close>, \<open>courseId\<close> or
  \<open>username\<close> changed. The cleanup clears the timer of \<open>reconnectTimeoutRef\<close> and closes the
  socket of \<open>wsRef\<close>.
\<close>

definition currentRender :: "jsstring \<Rightarrow> Client \<Rightarrow> Render" where
  "currentRender cid st =
     \<lparr>r_userId = userIdState st, r_courseId = cid, r_username = usernameState st\<rparr>"

definition connectCleanup :: "Client \<Rightarrow> Client" where
  "connectCleanup st =
     (let st1 = (case reconnectTimeoutRef st of None \<Rightarrow> st | Some t \<Rightarrow> clearTimeout t st)
      in case wsRef st1 of None \<Rightarrow> st1 | Some ws \<Rightarrow> ws_close ws st1)"

definition connectEffect :: "(jsstring \<Rightarrow> bool) \<Rightarrow> jsstring \<Rightarrow> Client \<Rightarrow> Client" where
  "connectEffect urlOk cid st =
     (let env = currentRender cid st
      in if connectEffectDeps st = Some env then st
         else
           let st1 = (if connectEffectDeps st = None then st else connectCleanup st);
               st2 = (case r_userId env of
                        None \<Rightarrow> st1
                      | Some uid \<Rightarrow> if uid = [] then st1 else connect urlOk env st1)
           in st2\<lparr>connectEffectDeps := Some env\<rparr>)"

definition exposeEffect :: "jsstring \<Rightarrow> Client \<Rightarrow> Client" where
  "exposeEffect cid st = st\<lparr>sendProgressUpdateHook := Some (currentRender cid st)\<rparr>"

definition commitRender :: "(jsstring \<Rightarrow> bool) \<Rightarrow> jsstring \<Rightarrow> Client \<Rightarrow> Client" where
  "commitRender urlOk cid st = exposeEffect cid (connectEffect urlOk cid st)"

text \<open>
  Mounting runs the effects of the first render, in which \<open>userId\<close> is still \<open>null\<close>, and
  the identity effect; the state it sets causes a second render.
\<close>

definition mountHook ::
  "(jsstring \<Rightarrow> bool) \<Rightarrow> jsstring \<Rightarrow> jsstring \<Rightarrow> jsstring \<Rightarrow> Client \<Rightarrow> Client" where
  "mountHook urlOk fresh generated cid st =
     commitRender urlOk cid (initIdentity fresh generated (commitRender urlOk cid st))"

section \<open>ProgressProvider\<close>

definition sendProgressToServer :: "jsstring \<Rightarrow> jsstring \<Rightarrow> bool \<Rightarrow> Client \<Rightarrow> Client" where
  "sendProgressToServer cid fkey flag st =
     (case sendProgressUpdateHook st of
        None \<Rightarrow> st
      | Some env \<Rightarrow> sendProgressUpdate env fkey flag st)"

text \<open>
  The completion map holds the own properties of \<open>progress\<close> and of each course object.
  \<open>courseProgressOf\<close> gives the own properties of \<open>prev[courseId] || {}\<close>, which are
  what the spread copies. \<open>marked\<close> is the truth value of \<open>courseProgress[key]\<close> on such
  a plain object: the own value, and for a key without one, whether \<open>Object.prototype\<close>
  has a property of that name. \<open>isFileComplete\<close> is the truth value of
  \<open>progress[courseId]?.[fileKey] ?? false\<close>. For a \<open>courseId\<close> that itself names a
  property of \<open>Object.prototype\<close> and has no entry, \<open>progress[courseId]\<close> is a built-in
  object of the runtime; what a read of a key from it gives is not described, and the
  statements below about reading are made for the other course ids.
\<close>

definition courseProgressOf :: "Client \<Rightarrow> jsstring \<Rightarrow> (jsstring \<rightharpoonup> bool)" where
  "courseProgressOf st cid = (case progress st cid of None \<Rightarrow> Map.empty | Some m \<Rightarrow> m)"

definition marked :: "(jsstring \<rightharpoonup> bool) \<Rightarrow> jsstring \<Rightarrow> bool" where
  "marked m fkey = (case m fkey of None \<Rightarrow> inheritedKey fkey | Some b \<Rightarrow> b)"

definition toggleFileComplete :: "jsstring \<Rightarrow> jsstring \<Rightarrow> Client \<Rightarrow> Client" where
  "toggleFileComplete cid fkey st =
     (let courseProgress = courseProgressOf st cid;
          flag = \<not> marked courseProgress fkey;
          st1 = sendProgressToServer cid fkey flag st
      in st1\<lparr>progress := (progress st1)(cid \<mapsto> courseProgress(fkey \<mapsto> flag))\<rparr>)"

definition isFileComplete :: "Client \<Rightarrow> jsstring \<Rightarrow> jsstring \<Rightarrow> bool" where
  "isFileComplete st cid fkey =
     (case progress st cid of
        None \<Rightarrow> False
      | Some m \<Rightarrow> marked m fkey)"

fun markEach ::
  "jsstring \<Rightarrow> bool \<Rightarrow> jsstring list \<Rightarrow> (jsstring \<rightharpoonup> bool) \<times> Client \<Rightarrow> (jsstring \<rightharpoonup> bool) \<times> Client"
where
  "markEach cid markComplete [] acc = acc"
| "markEach cid markComplete (key # keys) (updatedProgress, st) =
     markEach cid markComplete keys
       (updatedProgress(key \<mapsto> markComplete), sendProgressToServer cid key markComplete st)"

definition toggleUnitComplete :: "jsstring \<Rightarrow> jsstring list \<Rightarrow> bool \<Rightarrow> Client \<Rightarrow> Client" where
  "toggleUnitComplete cid fileKeys markComplete st =
     (case markEach cid markComplete fileKeys (courseProgressOf st cid, st) of
        (updatedProgress, st1) \<Rightarrow> st1\<lparr>progress := (progress st1)(cid \<mapsto> updatedProgress)\<rparr>)"

definition getUnitProgress ::
  "Client \<Rightarrow> jsstring \<Rightarrow> int \<Rightarrow> int \<Rightarrow> jsstring list \<Rightarrow> ProgressStats" where
  "getUnitProgress st cid unitNumber totalFiles fileKeys =
     (let courseProgress = courseProgressOf st cid;
          done = int (length (filter (\<lambda>key. marked courseProgress key) fileKeys))
      in \<lparr>completed = done, total = totalFiles,
          percentage = (if totalFiles > 0
                        then Math_round (double (double (of_int done / of_int totalFiles) * 100))
                        else 0)\<rparr>)"

definition getCourseProgress :: "Client \<Rightarrow> jsstring \<Rightarrow> int \<Rightarrow> jsstring list \<Rightarrow> ProgressStats" where
  "getCourseProgress st cid totalFiles allFileKeys =
     (let courseProgress = courseProgressOf st cid;
          done = int (length (filter (\<lambda>key. marked courseProgress key) allFileKeys))
      in \<lparr>completed = done, total = totalFiles,
          percentage = (if totalFiles > 0
                        then Math_round (double (double (of_int done / of_int totalFiles) * 100))
                        else 0)\<rparr>)"

section \<open>CompactLeaderboard\<close>

definition compareEntries :: "LeaderboardEntry \<Rightarrow> LeaderboardEntry \<Rightarrow> int" where
  "compareEntries a b =
     (if percentage b \<noteq> percentage a then percentage b - percentage a
      else completed b - completed a)"

definition sortedEntries :: "LeaderboardEntry list \<Rightarrow> LeaderboardEntry list" where
  "sortedEntries entries = Array_sort compareEntries entries"

section \<open>Sequences of events\<close>

text \<open>
  A sequence of \<open>sendProgressUpdate\<close> calls, each with the closure it was called through,
  and the queue entry a call makes.
\<close>

fun sendProgressUpdates :: "(Render \<times> jsstring \<times> bool) list \<Rightarrow> Client \<Rightarrow> Client" where
  "sendProgressUpdates [] st = st"
| "sendProgressUpdates ((env, fkey, flag) # calls) st =
     sendProgressUpdates calls (sendProgressUpdate env fkey flag st)"

fun issued :: "Render \<times> jsstring \<times> bool \<Rightarrow> ProgressUpdate" where
  "issued (env, fkey, flag) = \<lparr>courseId = r_courseId env, fileKey = fkey, isComplete = flag\<rparr>"

text \<open>
  The channel is attempting a connection for a render when the socket of \<open>wsRef\<close> carries
  the handlers of that render and has not closed. One round of the reconnect loop: the
  socket of \<open>wsRef\<close> closes, and the timer its \<open>onclose\<close> handler has set fires.
\<close>

definition attempting :: "Render \<Rightarrow> Client \<Rightarrow> bool" where
  "attempting env st =
     (case wsRef st of
        None \<Rightarrow> False
      | Some ws \<Rightarrow>
          ws < length (sockets st) \<and> readyState (sockets st ! ws) \<noteq> CLOSED
          \<and> handlers (sockets st ! ws) = env)"

definition reconnectRound :: "(jsstring \<Rightarrow> bool) \<Rightarrow> Client \<Rightarrow> Client" where
  "reconnectRound urlOk st =
     (case wsRef st of
        None \<Rightarrow> st
      | Some ws \<Rightarrow>
          let st1 = close_event ws st
          in case reconnectTimeoutRef st1 of
               None \<Rightarrow> st1
             | Some t \<Rightarrow> timer_event urlOk t st1)"

section \<open>Scenarios\<close>

text \<open>
  Concrete states for evaluating the model: a browser whose \<open>localStorage\<close> already holds
  an identity, the hook mounted for course \<open>c1\<close> (its first socket still connecting), and
  the same after the socket has opened; the render these sockets were created in; and a
  leaderboard of three users.
\<close>

definition storedIdentity :: "jsstring \<rightharpoonup> jsstring" where
  "storedIdentity =
     [str ''progress-user-id'' \<mapsto> str ''u1'', str ''progress-username'' \<mapsto> str ''Ann'']"

definition mounted :: Client where
  "mounted =
     mountHook (\<lambda>uid. True) (str ''u9'') (str ''Gen1'') (str ''c1'') (initialClient storedIdentity)"

definition online :: Client where
  "online = open_event 0 mounted"

definition ann :: Render where
  "ann = \<lparr>r_userId = Some (str ''u1''), r_courseId = str ''c1'', r_username = str ''Ann''\<rparr>"

definition entry :: "string \<Rightarrow> string \<Rightarrow> int \<Rightarrow> int \<Rightarrow> int \<Rightarrow> LeaderboardEntry" where
  "entry uid name done all pct =
     \<lparr>completed = done, total = all, percentage = pct,
      userId = str uid, username = str name, lastUpdate = str ''2024-01-01''\<rparr>"

definition board :: "LeaderboardEntry list" where
  "board = [entry ''u2'' ''Bea'' 5 10 50, entry ''u1'' ''Ann'' 3 10 30, entry ''u3'' ''Cy'' 2 10 20]"

text \<open>
  File keys of unit 1 (the unit number, a hyphen and one more code unit), for a course
  with many files.
\<close>

definition unitKeys :: "nat \<Rightarrow> jsstring list" where
  "unitKeys n = map (\<lambda>i. str ''1-'' @ [of_nat (48 + i)]) [0..<n]"

text \<open>
  A rename while connected: \<open>updateUsername\<close>, then the effects of the render it causes,
  which close socket 0 and open socket 1 for the new name. Socket 0 then closes and
  socket 1 opens; three seconds later the timer set by the \<open>onclose\<close> handler of socket 0
  fires and calls the \<open>connect\<close> of the old render, which creates socket 2. A file is
  toggled while socket 2 is still connecting.
\<close>

definition renaming :: Client where
  "renaming = updateUsername (str ''Bob'') online"

definition renamed :: Client where
  "renamed = commitRender (\<lambda>uid. True) (str ''c1'') renaming"

definition replaced :: Client where
  "replaced = open_event 1 (close_event 0 renamed)"

definition staleRetry :: Client where
  "staleRetry = timer_event (\<lambda>uid. True) 0 replaced"

definition staleQueued :: Client where
  "staleQueued = toggleFileComplete (str ''c1'') (str ''1-a'') staleRetry"

definition bob :: Render where
  "bob = \<lparr>r_userId = Some (str ''u1''), r_courseId = str ''c1'', r_username = str ''Bob''\<rparr>"

text \<open>
  A change of course while connected, as on the study page when the active item belongs
  to another course: the hook is rendered with \<open>c2\<close>, and the effects of that render close
  socket 0 and open socket 1 for \<open>c2\<close>. Socket 0 then closes and socket 1 opens; the timer
  set by the \<open>onclose\<close> handler of socket 0 fires and calls the \<open>connect\<close> of the render
  for \<open>c1\<close>, which creates socket 2, and socket 2 opens.
\<close>

definition switched :: Client where
  "switched = commitRender (\<lambda>uid. True) (str ''c2'') online"

definition switchedReplaced :: Client where
  "switchedReplaced = open_event 1 (close_event 0 switched)"

definition staleCourse :: Client where
  "staleCourse = open_event 2 (timer_event (\<lambda>uid. True) 0 switchedReplaced)"

definition annOnC2 :: Render where
  "annOnC2 = \<lparr>r_userId = Some (str ''u1''), r_courseId = str ''c2'', r_username = str ''Ann''\<rparr>"

section \<open>Properties of the completion map\<close>

lemma openSocket_ws_send [simp]: "openSocket (ws_send ws m st) = openSocket st"
  by (simp add: openSocket_def ws_send_def cong: option.case_cong)

lemma openSocket_pending [simp]: "openSocket (st\<lparr>pendingUpdatesRef := q\<rparr>) = openSocket st"
  by (simp add: openSocket_def cong: option.case_cong)

lemma openSocket_sendProgressUpdate [simp]:
  "openSocket (sendProgressUpdate env fkey flag st) = openSocket st"
  by (cases "openSocket st") (simp_all add: sendProgressUpdate_def Let_def)

lemma openSocket_sendProgressToServer [simp]:
  "openSocket (sendProgressToServer cid fkey flag st) = openSocket st"
  by (cases "sendProgressUpdateHook st") (simp_all add: sendProgressToServer_def)

lemma progress_sendProgressUpdate [simp]:
  "progress (sendProgressUpdate env fkey flag st) = progress st"
  by (simp add: sendProgressUpdate_def ws_send_def Let_def split: option.splits)

lemma progress_sendProgressToServer [simp]:
  "progress (sendProgressToServer cid fkey flag st) = progress st"
  by (simp add: sendProgressToServer_def split: option.splits)

lemma hook_sendProgressToServer [simp]:
  "sendProgressUpdateHook (sendProgressToServer cid fkey flag st) = sendProgressUpdateHook st"
  by (simp add: sendProgressToServer_def sendProgressUpdate_def ws_send_def Let_def
      split: option.splits)

lemma markEach_fst:
  "fst (markEach cid b keys (m, st)) k = (if k \<in> set keys then Some b else m k)"
  by (induction keys arbitrary: m st) auto

lemma markEach_progress:
  "progress (snd (markEach cid b keys (m, st))) = progress st"
  by (induction keys arbitrary: m st) auto

lemma progress_toggleFileComplete:
  "progress (toggleFileComplete cid fkey st) =
     (progress st)(cid \<mapsto> (courseProgressOf st cid)(fkey \<mapsto> \<not> marked (courseProgressOf st cid) fkey))"
  by (simp add: toggleFileComplete_def Let_def)

lemma progress_toggleUnitComplete:
  "progress (toggleUnitComplete cid keys b st) =
     (progress st)(cid \<mapsto> fst (markEach cid b keys (courseProgressOf st cid, st)))"
  using markEach_progress [of cid b keys "courseProgressOf st cid" st]
  by (cases "markEach cid b keys (courseProgressOf st cid, st)") (simp add: toggleUnitComplete_def)

lemma plain_keys:
  "\<not> inheritedKey (str ''c1'')" "\<not> inheritedKey (str ''c2'')" "\<not> inheritedKey (str ''1-a'')"
  "\<not> inheritedKey (str ''1-b'')" "inheritedKey (str ''constructor'')"
  "inheritedKey (str ''toString'')"
  by code_simp+

lemma marked_isFileComplete:
  "\<not> inheritedKey fkey \<Longrightarrow> marked (courseProgressOf st cid) fkey = isFileComplete st cid fkey"
  by (simp add: marked_def courseProgressOf_def isFileComplete_def split: option.splits)

text \<open>
  Claim C10. \<open>toggleFileComplete\<close> and \<open>toggleUnitComplete\<close> change the completion map of
  the given course only: the entry of every other course \<open>c\<close> is what it was. Within the
  course, \<open>toggleFileComplete\<close> leaves every key other than \<open>fkey\<close> as it was, and
  \<open>toggleUnitComplete\<close> leaves every key outside \<open>fileKeys\<close> as it was and sets every key
  of \<open>fileKeys\<close> to \<open>markComplete\<close>. (A course without an entry reads as the empty object,
  as \<open>prev[courseId] || {}\<close> does.)
\<close>

theorem toggle_frame:
  "(c \<noteq> cid \<longrightarrow> progress (toggleFileComplete cid fkey st) c = progress st c)
   \<and> (k \<noteq> fkey \<longrightarrow>
        courseProgressOf (toggleFileComplete cid fkey st) cid k = courseProgressOf st cid k)
   \<and> (c \<noteq> cid \<longrightarrow> progress (toggleUnitComplete cid fileKeys markComplete st) c = progress st c)
   \<and> (k \<notin> set fileKeys \<longrightarrow>
        courseProgressOf (toggleUnitComplete cid fileKeys markComplete st) cid k
          = courseProgressOf st cid k)
   \<and> (k \<in> set fileKeys \<longrightarrow>
        courseProgressOf (toggleUnitComplete cid fileKeys markComplete st) cid k
          = Some markComplete)"
  by (simp add: progress_toggleFileComplete progress_toggleUnitComplete markEach_fst
      courseProgressOf_def)

theorem toggle_frame_witness:
  "str ''c2'' \<noteq> str ''c1'' \<and> str ''1-b'' \<noteq> str ''1-a''
   \<and> str ''1-b'' \<notin> set [str ''1-a'', str ''1-c'']
   \<and> str ''1-c'' \<in> set [str ''1-a'', str ''1-c'']
   \<and> progress (toggleFileComplete (str ''c1'') (str ''1-a'')
         (toggleFileComplete (str ''c2'') (str ''1-x'') (initialClient Map.empty))) (str ''c2'')
       = progress (toggleFileComplete (str ''c2'') (str ''1-x'') (initialClient Map.empty))
           (str ''c2'')
   \<and> progress (toggleUnitComplete (str ''c1'') [str ''1-a'', str ''1-c''] True
         (toggleFileComplete (str ''c2'') (str ''1-x'') (initialClient Map.empty))) (str ''c2'')
       = progress (toggleFileComplete (str ''c2'') (str ''1-x'') (initialClient Map.empty))
           (str ''c2'')
   \<and> courseProgressOf (toggleUnitComplete (str ''c1'') [str ''1-a'', str ''1-c''] True
         (toggleFileComplete (str ''c2'') (str ''1-x'') (initialClient Map.empty)))
         (str ''c1'') (str ''1-b'')
       = courseProgressOf (toggleFileComplete (str ''c2'') (str ''1-x'') (initialClient Map.empty))
           (str ''c1'') (str ''1-b'')
   \<and> courseProgressOf (toggleUnitComplete (str ''c1'') [str ''1-a'', str ''1-c''] True
         (toggleFileComplete (str ''c2'') (str ''1-x'') (initialClient Map.empty)))
         (str ''c1'') (str ''1-c'')
       = Some True"
  using toggle_frame [where c = "str ''c2''" and cid = "str ''c1''" and k = "str ''1-b''"
      and fkey = "str ''1-a''" and fileKeys = "[str ''1-a'', str ''1-c'']" and markComplete = True
      and st = "toggleFileComplete (str ''c2'') (str ''1-x'') (initialClient Map.empty)"]
    toggle_frame [where c = "str ''c2''" and cid = "str ''c1''" and k = "str ''1-c''"
      and fkey = "str ''1-a''" and fileKeys = "[str ''1-a'', str ''1-c'']" and markComplete = True
      and st = "toggleFileComplete (str ''c2'') (str ''1-x'') (initialClient Map.empty)"]
  by (simp add: str_def)

section \<open>The scenarios evaluated\<close>

lemmas scenario_defs =
  mounted_def online_def mountHook_def commitRender_def exposeEffect_def connectEffect_def
  currentRender_def initIdentity_def getUserId_def getUsername_def storedIdentity_def
  initialClient_def connect_def connectCleanup_def open_event_def ws_onopen_def
  setReadyState_def ws_send_def str_def Let_def

lemma mounted_state:
  "wsRef mounted = Some 0"
  "sockets mounted = [\<lparr>readyState = CONNECTING, handlers = ann\<rparr>]"
  "sendProgressUpdateHook mounted = Some ann"
  "wire mounted = []"
  "pendingUpdatesRef mounted = []"
  "usernameState mounted = str ''Ann''"
  "userIdState mounted = Some (str ''u1'')"
  "progress mounted = Map.empty"
  "openSocket mounted = None"
  by (simp_all add: scenario_defs ann_def openSocket_def)

lemma online_state:
  "wsRef online = Some 0"
  "sockets online = [\<lparr>readyState = OPEN, handlers = ann\<rparr>]"
  "sendProgressUpdateHook online = Some ann"
  "wire online = [(0, msg_request_leaderboard (str ''c1''))]"
  "pendingUpdatesRef online = []"
  "usernameState online = str ''Ann''"
  "userIdState online = Some (str ''u1'')"
  "progress online = Map.empty"
  "openSocket online = Some 0"
  "isConnected online"
  by (simp_all add: scenario_defs ann_def openSocket_def)

section \<open>Percentages\<close>

lemma roundTiesToEven_ge_floor: "\<lfloor>x\<rfloor> \<le> roundTiesToEven x"
  by (simp add: roundTiesToEven_def Let_def)

lemma roundTiesToEven_nonneg: "0 \<le> x \<Longrightarrow> 0 \<le> roundTiesToEven x"
  using roundTiesToEven_ge_floor [of x] by (simp add: order_trans [of 0 "\<lfloor>x\<rfloor>"])

lemma roundTiesToEven_le:
  assumes "x \<le> of_int n"
  shows "roundTiesToEven x \<le> n"
proof (cases "\<lfloor>x\<rfloor> < n")
  case True
  then show ?thesis by (simp add: roundTiesToEven_def Let_def)
next
  case False
  moreover have "\<lfloor>x\<rfloor> \<le> n" using assms by (simp add: floor_le_iff)
  ultimately have fl: "\<lfloor>x\<rfloor> = n" by simp
  then have "of_int n \<le> x" using of_int_floor_le [of x] by simp
  then have "x = of_int n" using assms by simp
  then show ?thesis by (simp add: roundTiesToEven_def Let_def)
qed

lemma binaryExponent_le:
  assumes "0 < x"
  shows "power_int 2 (binaryExponent x) \<le> x"
proof -
  obtain p q where pq: "quotient_of x = (p, q)" by (cases "quotient_of x") auto
  have q: "0 < q" using pq quotient_of_denom_pos by blast
  have x: "x = of_int p / of_int q" using pq by (rule quotient_of_div)
  have p: "0 < p" using assms q x by (simp add: zero_less_divide_iff)
  let ?e = "bitlen p - bitlen q"
  show ?thesis
  proof (cases "power_int 2 ?e \<le> x")
    case True
    then show ?thesis by (simp add: binaryExponent_def pq Let_def)
  next
    case False
    have bp: "2 ^ nat (bitlen p - 1) \<le> p" and bq: "q < 2 ^ nat (bitlen q)"
      using bitlen_bounds [OF p] bitlen_bounds [OF q] by simp_all
    have pos: "1 \<le> bitlen p" "1 \<le> bitlen q"
      using p q bitlen_eq_zero_iff [of p] bitlen_eq_zero_iff [of q] bitlen_nonneg [of p]
        bitlen_nonneg [of q] by linarith+
    have "power_int (2::rat) (?e - 1) = power_int 2 (bitlen p - 1) / power_int 2 (bitlen q)"
      using power_int_diff [of "2::rat" "bitlen p - 1" "bitlen q"] by (simp add: algebra_simps)
    also have "\<dots> = 2 ^ nat (bitlen p - 1) / 2 ^ nat (bitlen q)"
      using pos by (simp add: power_int_def)
    also have "\<dots> \<le> of_int p / 2 ^ nat (bitlen q)"
    proof -
      have "(2::rat) ^ nat (bitlen p - 1) \<le> of_int p"
        using bp by (metis of_int_le_iff of_int_numeral of_int_power)
      then show ?thesis by (simp add: divide_right_mono)
    qed
    also have "\<dots> \<le> of_int p / of_int q"
    proof -
      have "of_int q \<le> (2::rat) ^ nat (bitlen q)"
        using bq by (metis less_imp_le of_int_le_iff of_int_numeral of_int_power)
      then show ?thesis using p q by (simp add: divide_left_mono)
    qed
    finally have "power_int 2 (?e - 1) \<le> x" by (simp only: x)
    moreover have "binaryExponent x = ?e - 1"
      using False by (simp add: binaryExponent_def pq Let_def)
    ultimately show ?thesis by (simp only:)
  qed
qed

lemma double_nonneg:
  assumes "0 \<le> x"
  shows "0 \<le> double x"
proof (cases "x = 0")
  case True
  then show ?thesis by (simp add: double_def)
next
  case False
  then have x: "0 < x" using assms by simp
  let ?ulp = "power_int (2::rat) (binaryExponent \<bar>x\<bar> - 52)"
  have ulp: "0 < ?ulp" by simp
  have "0 \<le> roundTiesToEven (\<bar>x\<bar> / ?ulp)"
    using x ulp by (intro roundTiesToEven_nonneg) simp
  then show ?thesis using x ulp by (simp add: double_def Let_def)
qed

lemma double_le_int:
  assumes "0 < x" "x \<le> of_int b" "b < 2 ^ 53"
  shows "double x \<le> of_int b"
proof -
  let ?e = "binaryExponent x"
  let ?ulp = "power_int (2::rat) (?e - 52)"
  have "power_int (2::rat) ?e \<le> of_int b"
    using binaryExponent_le [OF assms(1)] assms(2) by simp
  also have "of_int b < (2::rat) ^ 53"
    using assms(3) by (metis of_int_less_iff of_int_numeral of_int_power)
  finally have "power_int (2::rat) ?e < power_int 2 53" by simp
  then have e: "?e < 53"
    by (rule power_int_le_imp_less_exp [rotated]) simp_all
  then have k: "0 \<le> 52 - ?e" by simp
  have ulp: "?ulp = 1 / 2 ^ nat (52 - ?e)"
    using k power_int_minus [of "2::rat" "52 - ?e"] by (simp add: power_int_def divide_inverse)
  have scaled: "x / ?ulp \<le> of_int (b * 2 ^ nat (52 - ?e))"
    using assms(2) by (simp add: ulp mult_right_mono)
  have "roundTiesToEven (x / ?ulp) \<le> b * 2 ^ nat (52 - ?e)"
    using scaled by (rule roundTiesToEven_le)
  then have "of_int (roundTiesToEven (x / ?ulp)) \<le> (of_int (b * 2 ^ nat (52 - ?e)) :: rat)"
    by (simp only: of_int_le_iff)
  then have "of_int (roundTiesToEven (x / ?ulp)) * ?ulp \<le> of_int (b * 2 ^ nat (52 - ?e)) * ?ulp"
    by (rule mult_right_mono) simp
  also have "\<dots> = of_int b" by (simp add: ulp)
  finally show ?thesis using assms(1) by (simp add: double_def Let_def)
qed

lemma percent_bounds:
  assumes "0 < t" "0 \<le> c" "c \<le> t"
  shows "0 \<le> Math_round (double (double (of_int c / of_int t) * 100))
       \<and> Math_round (double (double (of_int c / of_int t) * 100)) \<le> 100"
proof -
  let ?q = "double (of_int c / of_int t)"
  let ?y = "double (?q * 100)"
  have q0: "0 \<le> ?q" using assms by (intro double_nonneg) simp
  have q1: "?q \<le> 1"
  proof (cases "c = 0")
    case True
    then show ?thesis by (simp add: double_def)
  next
    case False
    then have "0 < (of_int c / of_int t :: rat)" using assms by simp
    moreover have "(of_int c / of_int t :: rat) \<le> of_int 1" using assms by simp
    ultimately have "?q \<le> of_int 1" by (rule double_le_int) simp
    then show ?thesis by simp
  qed
  have y0: "0 \<le> ?y" using q0 by (intro double_nonneg) simp
  have y1: "?y \<le> 100"
  proof (cases "?q = 0")
    case True
    then show ?thesis by (simp add: double_def)
  next
    case False
    then have "0 < ?q * 100" using q0 by simp
    moreover have "?q * 100 \<le> of_int 100" using q1 by simp
    ultimately have "?y \<le> of_int 100" by (rule double_le_int) simp
    then show ?thesis by simp
  qed
  have "0 \<le> \<lfloor>?y + 1 / 2\<rfloor>" using y0 by simp
  moreover have "\<lfloor>?y + 1 / 2\<rfloor> \<le> 100" using y1 by (simp add: floor_le_iff)
  ultimately show ?thesis by (simp add: Math_round_def)
qed

lemma getUnitProgress_eq:
  "getUnitProgress st cid unitNumber totalFiles keys = getCourseProgress st cid totalFiles keys"
  by (simp add: getUnitProgress_def getCourseProgress_def)

lemma completed_le_length:
  "completed (getCourseProgress st cid totalFiles keys) \<le> int (length keys)"
  by (simp add: getCourseProgress_def Let_def)

lemma completed_nonneg: "0 \<le> completed (getCourseProgress st cid totalFiles keys)"
  by (simp add: getCourseProgress_def Let_def)

lemma completed_getCourseProgress:
  assumes "\<forall>key\<in>set keys. \<not> inheritedKey key"
  shows "completed (getCourseProgress st cid totalFiles keys)
     = int (length (filter (\<lambda>key. isFileComplete st cid key) keys))"
proof -
  have "filter (\<lambda>key. marked (courseProgressOf st cid) key) keys
      = filter (\<lambda>key. isFileComplete st cid key) keys"
    using assms by (intro filter_cong) (simp_all add: marked_isFileComplete)
  then show ?thesis by (simp add: getCourseProgress_def Let_def)
qed

lemma percentage_getCourseProgress:
  "percentage (getCourseProgress st cid totalFiles keys)
     = (if totalFiles > 0
        then Math_round (double (double
               (of_int (completed (getCourseProgress st cid totalFiles keys)) / of_int totalFiles)
               * 100))
        else 0)"
  by (simp add: getCourseProgress_def Let_def)

lemma percent_examples:
  "Math_round (double (double (of_int 3 / of_int 10) * 100)) = 30"
  "Math_round (double (double (of_int 23 / of_int 40) * 100)) = 57"
  "Math_round (double (double 2 * 100)) = 200"
  by code_simp+

text \<open>
  Claim C1, as the code has it. In \<open>getCourseProgress\<close> and \<open>getUnitProgress\<close>, when no
  supplied key and not the course id names a property of \<open>Object.prototype\<close>,
  \<open>completed\<close> is the number of supplied keys that are marked complete for the course.
  With \<open>totalFiles > 0\<close> the percentage is \<open>Math.round(completed / totalFiles * 100)\<close> as
  the doubles compute it, the quotient and the product each rounded to a double (23 of 40
  gives 57), and it lies between 0 and 100 whenever \<open>completed\<close> does not exceed
  \<open>totalFiles\<close>; this is so at every call with \<open>totalFiles = fileKeys.length\<close>, which is
  what the components pass. With \<open>totalFiles\<close> not positive the percentage is 0.
\<close>

theorem progress_percentage:
  "(\<not> inheritedKey cid \<and> (\<forall>key\<in>set keys. \<not> inheritedKey key) \<longrightarrow>
        completed (getCourseProgress st cid totalFiles keys)
          = int (length (filter (\<lambda>key. isFileComplete st cid key) keys))
      \<and> completed (getUnitProgress st cid unitNumber totalFiles keys)
          = int (length (filter (\<lambda>key. isFileComplete st cid key) keys)))
   \<and> (0 < totalFiles \<longrightarrow>
        percentage (getCourseProgress st cid totalFiles keys)
          = Math_round (double (double
              (of_int (completed (getCourseProgress st cid totalFiles keys)) / of_int totalFiles)
              * 100))
      \<and> percentage (getUnitProgress st cid unitNumber totalFiles keys)
          = Math_round (double (double
              (of_int (completed (getUnitProgress st cid unitNumber totalFiles keys))
                / of_int totalFiles)
              * 100)))
   \<and> (0 < totalFiles \<and> completed (getCourseProgress st cid totalFiles keys) \<le> totalFiles \<longrightarrow>
        0 \<le> percentage (getCourseProgress st cid totalFiles keys)
      \<and> percentage (getCourseProgress st cid totalFiles keys) \<le> 100
      \<and> 0 \<le> percentage (getUnitProgress st cid unitNumber totalFiles keys)
      \<and> percentage (getUnitProgress st cid unitNumber totalFiles keys) \<le> 100)
   \<and> (totalFiles \<le> 0 \<longrightarrow>
        percentage (getCourseProgress st cid totalFiles keys) = 0
      \<and> percentage (getUnitProgress st cid unitNumber totalFiles keys) = 0)
   \<and> 0 \<le> percentage (getCourseProgress st cid (int (length keys)) keys)
   \<and> percentage (getCourseProgress st cid (int (length keys)) keys) \<le> 100
   \<and> 0 \<le> percentage (getUnitProgress st cid unitNumber (int (length keys)) keys)
   \<and> percentage (getUnitProgress st cid unitNumber (int (length keys)) keys) \<le> 100"
proof -
  let ?c = "\<lambda>t. completed (getCourseProgress st cid t keys)"
  have counted: "?c totalFiles = int (length (filter (\<lambda>key. isFileComplete st cid key) keys))"
    if "\<forall>key\<in>set keys. \<not> inheritedKey key"
    using that by (rule completed_getCourseProgress)
  have bounded: "0 \<le> percentage (getCourseProgress st cid t keys)
      \<and> percentage (getCourseProgress st cid t keys) \<le> 100" if "0 < t" "?c t \<le> t" for t
    using that percent_bounds [of t "?c t"] completed_nonneg [of st cid t keys]
    by (simp add: percentage_getCourseProgress)
  have site: "0 \<le> percentage (getCourseProgress st cid (int (length keys)) keys)
      \<and> percentage (getCourseProgress st cid (int (length keys)) keys) \<le> 100"
  proof (cases "keys = []")
    case True
    then show ?thesis by (simp add: percentage_getCourseProgress)
  next
    case False
    then have "0 < int (length keys)" by simp
    then show ?thesis
      using bounded [of "int (length keys)"] completed_le_length [of st cid _ keys] by blast
  qed
  have rounded: "percentage (getCourseProgress st cid totalFiles keys)
      = Math_round (double (double (of_int (?c totalFiles) / of_int totalFiles) * 100))"
    if "0 < totalFiles"
    using that by (simp add: percentage_getCourseProgress)
  have zero: "percentage (getCourseProgress st cid totalFiles keys) = 0" if "totalFiles \<le> 0"
    using that by (simp add: percentage_getCourseProgress)
  show ?thesis
    unfolding getUnitProgress_eq
    using counted bounded [of totalFiles] site rounded zero by blast
qed

lemma marked_after_toggleUnitComplete:
  "marked (courseProgressOf (toggleUnitComplete cid done True (initialClient Map.empty)) cid) key
     = (key \<in> set done \<or> inheritedKey key)"
  "isFileComplete (toggleUnitComplete cid done True (initialClient Map.empty)) cid key
     = (key \<in> set done \<or> inheritedKey key)"
  by (simp_all add: courseProgressOf_def isFileComplete_def progress_toggleUnitComplete
      markEach_fst marked_def initialClient_def)

lemma unitKeys_count:
  "list_all (\<lambda>key. \<not> inheritedKey key) (unitKeys 40)"
  "\<not> inheritedKey (str ''c1'')"
  "length (filter (\<lambda>key. key \<in> set (unitKeys 23) \<or> inheritedKey key) (unitKeys 40)) = 23"
  by code_simp+

lemma unitKeys_sample:
  "completed (getCourseProgress
      (toggleUnitComplete (str ''c1'') (unitKeys 23) True (initialClient Map.empty))
      (str ''c1'') 40 (unitKeys 40)) = 23"
proof -
  have "marked (courseProgressOf
          (toggleUnitComplete (str ''c1'') (unitKeys 23) True (initialClient Map.empty))
          (str ''c1''))
      = (\<lambda>key. key \<in> set (unitKeys 23) \<or> inheritedKey key)"
    by (rule ext) (rule marked_after_toggleUnitComplete(1))
  then show ?thesis
    by (simp add: getCourseProgress_def Let_def unitKeys_count)
qed

theorem progress_percentage_witness:
  "\<not> inheritedKey (str ''c1'') \<and> list_all (\<lambda>key. \<not> inheritedKey key) (unitKeys 40)
   \<and> (0::int) < 40
   \<and> completed (getCourseProgress
        (toggleUnitComplete (str ''c1'') (unitKeys 23) True (initialClient Map.empty))
        (str ''c1'') 40 (unitKeys 40)) = 23
   \<and> percentage (getCourseProgress
        (toggleUnitComplete (str ''c1'') (unitKeys 23) True (initialClient Map.empty))
        (str ''c1'') 40 (unitKeys 40)) = 57
   \<and> percentage (getUnitProgress
        (toggleUnitComplete (str ''c1'') (unitKeys 23) True (initialClient Map.empty))
        (str ''c1'') 1 40 (unitKeys 40)) \<le> 100
   \<and> \<not> (40::int) \<le> 0"
  using progress_percentage [where totalFiles = 40 and cid = "str ''c1''" and unitNumber = 1
      and keys = "unitKeys 40"
      and st = "toggleUnitComplete (str ''c1'') (unitKeys 23) True (initialClient Map.empty)"]
    percent_examples(2)
  by (simp add: unitKeys_sample unitKeys_count list_all_iff [symmetric])

text \<open>
  Without the condition on \<open>completed\<close> the bound fails: \<open>totalFiles\<close> is a parameter of
  its own, and with two completed keys and \<open>totalFiles = 1\<close> both functions return 200.
  And a key that names a property of \<open>Object.prototype\<close> is counted though it was never
  marked: \<open>toString\<close> counts as completed in a course without any entry.
\<close>

theorem progress_percentage_counterexample:
  "(0::int) < 1
   \<and> percentage (getCourseProgress
        (toggleUnitComplete (str ''c1'') [str ''1-a'', str ''1-b''] True (initialClient Map.empty))
        (str ''c1'') 1 [str ''1-a'', str ''1-b'']) = 200
   \<and> percentage (getUnitProgress
        (toggleUnitComplete (str ''c1'') [str ''1-a'', str ''1-b''] True (initialClient Map.empty))
        (str ''c1'') 1 1 [str ''1-a'', str ''1-b'']) = 200
   \<and> \<not> percentage (getCourseProgress
        (toggleUnitComplete (str ''c1'') [str ''1-a'', str ''1-b''] True (initialClient Map.empty))
        (str ''c1'') 1 [str ''1-a'', str ''1-b'']) \<le> 100
   \<and> completed (getCourseProgress (initialClient Map.empty) (str ''c1'') 1 [str ''toString'']) = 1
   \<and> \<not> isFileComplete (initialClient Map.empty) (str ''c1'') (str ''toString'')"
  proof -
  let ?st = "toggleUnitComplete (str ''c1'') [str ''1-a'', str ''1-b''] True
      (initialClient Map.empty)"
  have "marked (courseProgressOf ?st (str ''c1''))
      = (\<lambda>key. key \<in> set [str ''1-a'', str ''1-b''] \<or> inheritedKey key)"
    by (rule ext) (rule marked_after_toggleUnitComplete(1))
  then have two: "completed (getCourseProgress ?st (str ''c1'') 1 [str ''1-a'', str ''1-b'']) = 2"
    by (simp add: getCourseProgress_def Let_def)
  have course: "percentage (getCourseProgress ?st (str ''c1'') 1 [str ''1-a'', str ''1-b'']) = 200"
    by (simp add: percentage_getCourseProgress two percent_examples)
  have inherited:
    "completed (getCourseProgress (initialClient Map.empty) (str ''c1'') 1 [str ''toString'']) = 1"
    "\<not> isFileComplete (initialClient Map.empty) (str ''c1'') (str ''toString'')"
    by (simp_all add: getCourseProgress_def courseProgressOf_def marked_def isFileComplete_def
        initialClient_def plain_keys)
  show ?thesis
    using course inherited by (simp add: getUnitProgress_eq)
qed

section \<open>Toggling a file twice\<close>

lemma openSocket_progress [simp]: "openSocket (st\<lparr>progress := p\<rparr>) = openSocket st"
  by (simp add: openSocket_def cong: option.case_cong)

lemma openSocket_toggleFileComplete [simp]:
  "openSocket (toggleFileComplete cid fkey st) = openSocket st"
  by (simp add: toggleFileComplete_def Let_def)

lemma toggleFileComplete_channel:
  "wire (toggleFileComplete cid fkey st)
     = wire (sendProgressToServer cid fkey (\<not> marked (courseProgressOf st cid) fkey) st)"
  "pendingUpdatesRef (toggleFileComplete cid fkey st)
     = pendingUpdatesRef
         (sendProgressToServer cid fkey (\<not> marked (courseProgressOf st cid) fkey) st)"
  "sendProgressUpdateHook (toggleFileComplete cid fkey st) = sendProgressUpdateHook st"
  by (simp_all add: toggleFileComplete_def Let_def)

lemma marked_toggleFileComplete:
  "marked (courseProgressOf (toggleFileComplete cid fkey st) cid) fkey
     = (\<not> marked (courseProgressOf st cid) fkey)"
  by (simp add: progress_toggleFileComplete courseProgressOf_def marked_def)

lemma isFileComplete_toggleFileComplete:
  "isFileComplete (toggleFileComplete cid fkey st) cid fkey
     = (\<not> marked (courseProgressOf st cid) fkey)"
  by (simp add: isFileComplete_def progress_toggleFileComplete marked_def)

lemma sendProgressToServer_open:
  assumes "sendProgressUpdateHook st = Some env" "openSocket st = Some ws"
  shows "wire (sendProgressToServer cid fkey flag st)
           = wire st @ [(ws, msg_progress_update (r_courseId env) fkey flag (r_username env))]"
    and "pendingUpdatesRef (sendProgressToServer cid fkey flag st) = pendingUpdatesRef st"
  using assms
  by (simp_all add: sendProgressToServer_def sendProgressUpdate_def flushMessage_def ws_send_def)

lemma sendProgressToServer_queued:
  assumes "sendProgressUpdateHook st = Some env" "openSocket st = None"
  shows "wire (sendProgressToServer cid fkey flag st) = wire st"
    and "pendingUpdatesRef (sendProgressToServer cid fkey flag st)
           = pendingUpdatesRef st @ [\<lparr>courseId = r_courseId env, fileKey = fkey, isComplete = flag\<rparr>]"
  using assms
  by (simp_all add: sendProgressToServer_def sendProgressUpdate_def)

lemma sendProgressToServer_unregistered:
  assumes "sendProgressUpdateHook st = None"
  shows "sendProgressToServer cid fkey flag st = st"
  using assms by (simp add: sendProgressToServer_def)

text \<open>
  Claim C9, as the code has it. For a course id and a file key that do not name
  properties of \<open>Object.prototype\<close>, two successive calls of \<open>toggleFileComplete\<close> for
  that course and key restore \<open>isFileComplete\<close>. What they send goes through
  \<open>window.__sendProgressUpdate\<close>: when the sync hook has registered it and the socket of
  \<open>wsRef\<close> is open, two \<open>progress_update\<close> messages with opposite values of \<open>isComplete\<close>
  are sent on that socket, the negation of the old state first; when it is registered and
  no socket is open, the same two updates are appended to the pending queue and nothing is
  sent; when it is not registered, nothing is sent and nothing is queued.
\<close>

theorem toggle_twice:
  "\<not> inheritedKey cid \<and> \<not> inheritedKey fkey \<longrightarrow>
     isFileComplete (toggleFileComplete cid fkey (toggleFileComplete cid fkey st)) cid fkey
       = isFileComplete st cid fkey
   \<and> (sendProgressUpdateHook st = Some env \<and> openSocket st = Some ws \<longrightarrow>
        wire (toggleFileComplete cid fkey (toggleFileComplete cid fkey st))
          = wire st @
              [(ws, msg_progress_update (r_courseId env) fkey (\<not> isFileComplete st cid fkey)
                      (r_username env)),
               (ws, msg_progress_update (r_courseId env) fkey (isFileComplete st cid fkey)
                      (r_username env))]
      \<and> pendingUpdatesRef (toggleFileComplete cid fkey (toggleFileComplete cid fkey st))
          = pendingUpdatesRef st)
   \<and> (sendProgressUpdateHook st = Some env \<and> openSocket st = None \<longrightarrow>
        wire (toggleFileComplete cid fkey (toggleFileComplete cid fkey st)) = wire st
      \<and> pendingUpdatesRef (toggleFileComplete cid fkey (toggleFileComplete cid fkey st))
          = pendingUpdatesRef st @
              [\<lparr>courseId = r_courseId env, fileKey = fkey,
                isComplete = \<not> isFileComplete st cid fkey\<rparr>,
               \<lparr>courseId = r_courseId env, fileKey = fkey,
                isComplete = isFileComplete st cid fkey\<rparr>])
   \<and> (sendProgressUpdateHook st = None \<longrightarrow>
        wire (toggleFileComplete cid fkey (toggleFileComplete cid fkey st)) = wire st
      \<and> pendingUpdatesRef (toggleFileComplete cid fkey (toggleFileComplete cid fkey st))
          = pendingUpdatesRef st)"
proof (intro impI)
  assume keys: "\<not> inheritedKey cid \<and> \<not> inheritedKey fkey"
  let ?st1 = "toggleFileComplete cid fkey st"
  let ?old = "isFileComplete st cid fkey"
  have first: "marked (courseProgressOf st cid) fkey = ?old"
    using keys by (simp add: marked_isFileComplete)
  have second: "marked (courseProgressOf ?st1 cid) fkey = (\<not> ?old)"
    by (simp add: marked_toggleFileComplete first)
  have restore: "isFileComplete (toggleFileComplete cid fkey ?st1) cid fkey = ?old"
    by (simp add: isFileComplete_toggleFileComplete second)
  have opened: "wire (toggleFileComplete cid fkey ?st1)
          = wire st @
              [(ws, msg_progress_update (r_courseId env) fkey (\<not> ?old) (r_username env)),
               (ws, msg_progress_update (r_courseId env) fkey ?old (r_username env))]
      \<and> pendingUpdatesRef (toggleFileComplete cid fkey ?st1) = pendingUpdatesRef st"
    if h: "sendProgressUpdateHook st = Some env" "openSocket st = Some ws"
  proof -
    have h1: "sendProgressUpdateHook ?st1 = Some env" "openSocket ?st1 = Some ws"
      using h by (simp_all add: toggleFileComplete_channel)
    show ?thesis
      by (simp add: toggleFileComplete_channel [of cid fkey ?st1]
          toggleFileComplete_channel [of cid fkey st]
          sendProgressToServer_open [OF h1] sendProgressToServer_open [OF h] first second)
  qed
  have queued: "wire (toggleFileComplete cid fkey ?st1) = wire st
      \<and> pendingUpdatesRef (toggleFileComplete cid fkey ?st1)
          = pendingUpdatesRef st @
              [\<lparr>courseId = r_courseId env, fileKey = fkey, isComplete = \<not> ?old\<rparr>,
               \<lparr>courseId = r_courseId env, fileKey = fkey, isComplete = ?old\<rparr>]"
    if h: "sendProgressUpdateHook st = Some env" "openSocket st = None"
  proof -
    have h1: "sendProgressUpdateHook ?st1 = Some env" "openSocket ?st1 = None"
      using h by (simp_all add: toggleFileComplete_channel)
    show ?thesis
      by (simp add: toggleFileComplete_channel [of cid fkey ?st1]
          toggleFileComplete_channel [of cid fkey st]
          sendProgressToServer_queued [OF h1] sendProgressToServer_queued [OF h] first second)
  qed
  have silent: "wire (toggleFileComplete cid fkey ?st1) = wire st
      \<and> pendingUpdatesRef (toggleFileComplete cid fkey ?st1) = pendingUpdatesRef st"
    if h: "sendProgressUpdateHook st = None"
  proof -
    have h1: "sendProgressUpdateHook ?st1 = None"
      using h by (simp add: toggleFileComplete_channel)
    show ?thesis
      by (simp add: toggleFileComplete_channel [of cid fkey ?st1]
          toggleFileComplete_channel [of cid fkey st]
          sendProgressToServer_unregistered [OF h1] sendProgressToServer_unregistered [OF h])
  qed
  show "isFileComplete (toggleFileComplete cid fkey ?st1) cid fkey = ?old
   \<and> (sendProgressUpdateHook st = Some env \<and> openSocket st = Some ws \<longrightarrow>
        wire (toggleFileComplete cid fkey ?st1)
          = wire st @
              [(ws, msg_progress_update (r_courseId env) fkey (\<not> ?old) (r_username env)),
               (ws, msg_progress_update (r_courseId env) fkey ?old (r_username env))]
      \<and> pendingUpdatesRef (toggleFileComplete cid fkey ?st1) = pendingUpdatesRef st)
   \<and> (sendProgressUpdateHook st = Some env \<and> openSocket st = None \<longrightarrow>
        wire (toggleFileComplete cid fkey ?st1) = wire st
      \<and> pendingUpdatesRef (toggleFileComplete cid fkey ?st1)
          = pendingUpdatesRef st @
              [\<lparr>courseId = r_courseId env, fileKey = fkey, isComplete = \<not> ?old\<rparr>,
               \<lparr>courseId = r_courseId env, fileKey = fkey, isComplete = ?old\<rparr>])
   \<and> (sendProgressUpdateHook st = None \<longrightarrow>
        wire (toggleFileComplete cid fkey ?st1) = wire st
      \<and> pendingUpdatesRef (toggleFileComplete cid fkey ?st1) = pendingUpdatesRef st)"
    using restore opened queued silent by blast
qed

theorem toggle_twice_witness:
  "\<not> inheritedKey (str ''c1'') \<and> \<not> inheritedKey (str ''1-a'')
   \<and> sendProgressUpdateHook online = Some ann \<and> openSocket online = Some 0
   \<and> wire (toggleFileComplete (str ''c1'') (str ''1-a'')
         (toggleFileComplete (str ''c1'') (str ''1-a'') online))
       = [(0, msg_request_leaderboard (str ''c1'')),
          (0, msg_progress_update (str ''c1'') (str ''1-a'') True (str ''Ann'')),
          (0, msg_progress_update (str ''c1'') (str ''1-a'') False (str ''Ann''))]
   \<and> sendProgressUpdateHook mounted = Some ann \<and> openSocket mounted = None
   \<and> pendingUpdatesRef (toggleFileComplete (str ''c1'') (str ''1-a'')
         (toggleFileComplete (str ''c1'') (str ''1-a'') mounted))
       = [\<lparr>courseId = str ''c1'', fileKey = str ''1-a'', isComplete = True\<rparr>,
          \<lparr>courseId = str ''c1'', fileKey = str ''1-a'', isComplete = False\<rparr>]
   \<and> sendProgressUpdateHook (initialClient Map.empty) = None
   \<and> wire (toggleFileComplete (str ''c1'') (str ''1-a'')
         (toggleFileComplete (str ''c1'') (str ''1-a'') (initialClient Map.empty)))
       = wire (initialClient Map.empty)
   \<and> isFileComplete (toggleFileComplete (str ''c1'') (str ''1-a'')
         (toggleFileComplete (str ''c1'') (str ''1-a'') online)) (str ''c1'') (str ''1-a'')
       = isFileComplete online (str ''c1'') (str ''1-a'')"
  using toggle_twice [where st = online and cid = "str ''c1''" and fkey = "str ''1-a''"
      and env = ann and ws = 0]
    toggle_twice [where st = mounted and cid = "str ''c1''" and fkey = "str ''1-a''"
      and env = ann and ws = 0]
    toggle_twice [where st = "initialClient Map.empty" and cid = "str ''c1''"
      and fkey = "str ''1-a''" and env = ann and ws = 0]
  by (simp add: online_state mounted_state isFileComplete_def ann_def plain_keys)
    (simp add: initialClient_def)

text \<open>
  In a tab where no sync hook has registered a sender, the two toggles send nothing and
  queue nothing; with the hook mounted and its socket still connecting, they send nothing
  and queue the two updates. And for the key \<open>constructor\<close> in a course without an entry
  the state is not restored: the file is not complete before, the first toggle reads the
  inherited property and reports \<open>false\<close>, and after the second toggle the file is complete.
\<close>

theorem toggle_twice_counterexample:
  "wire (toggleFileComplete (str ''c1'') (str ''1-a'')
          (toggleFileComplete (str ''c1'') (str ''1-a'') (initialClient Map.empty))) = []
   \<and> pendingUpdatesRef (toggleFileComplete (str ''c1'') (str ''1-a'')
          (toggleFileComplete (str ''c1'') (str ''1-a'') (initialClient Map.empty))) = []
   \<and> wire (toggleFileComplete (str ''c1'') (str ''1-a'')
          (toggleFileComplete (str ''c1'') (str ''1-a'') mounted)) = []
   \<and> \<not> isFileComplete mounted (str ''c1'') (str ''constructor'')
   \<and> isFileComplete (toggleFileComplete (str ''c1'') (str ''constructor'')
          (toggleFileComplete (str ''c1'') (str ''constructor'') mounted))
        (str ''c1'') (str ''constructor'')
   \<and> pendingUpdatesRef (toggleFileComplete (str ''c1'') (str ''constructor'')
          (toggleFileComplete (str ''c1'') (str ''constructor'') mounted))
       = [\<lparr>courseId = str ''c1'', fileKey = str ''constructor'', isComplete = False\<rparr>,
          \<lparr>courseId = str ''c1'', fileKey = str ''constructor'', isComplete = True\<rparr>]"
proof -
  have none: "sendProgressUpdateHook (initialClient Map.empty) = None"
      "wire (initialClient Map.empty) = []" "pendingUpdatesRef (initialClient Map.empty) = []"
    by (simp_all add: initialClient_def)
  have unregistered:
    "wire (toggleFileComplete (str ''c1'') (str ''1-a'')
          (toggleFileComplete (str ''c1'') (str ''1-a'') (initialClient Map.empty))) = []
   \<and> pendingUpdatesRef (toggleFileComplete (str ''c1'') (str ''1-a'')
          (toggleFileComplete (str ''c1'') (str ''1-a'') (initialClient Map.empty))) = []"
    by (simp add: toggleFileComplete_channel sendProgressToServer_unregistered none)
  have connecting: "wire (toggleFileComplete (str ''c1'') (str ''1-a'')
          (toggleFileComplete (str ''c1'') (str ''1-a'') mounted)) = []"
    by (simp add: toggleFileComplete_channel sendProgressToServer_queued [where env = ann]
        mounted_state)
  have before: "marked (courseProgressOf mounted (str ''c1'')) (str ''constructor'')"
      "\<not> isFileComplete mounted (str ''c1'') (str ''constructor'')"
    by (simp_all add: courseProgressOf_def marked_def isFileComplete_def mounted_state plain_keys)
  have after: "isFileComplete (toggleFileComplete (str ''c1'') (str ''constructor'')
          (toggleFileComplete (str ''c1'') (str ''constructor'') mounted))
        (str ''c1'') (str ''constructor'')"
    by (simp add: isFileComplete_toggleFileComplete marked_toggleFileComplete before)
  have sent: "pendingUpdatesRef (toggleFileComplete (str ''c1'') (str ''constructor'')
          (toggleFileComplete (str ''c1'') (str ''constructor'') mounted))
       = [\<lparr>courseId = str ''c1'', fileKey = str ''constructor'', isComplete = False\<rparr>,
          \<lparr>courseId = str ''c1'', fileKey = str ''constructor'', isComplete = True\<rparr>]"
    by (simp add: toggleFileComplete_channel sendProgressToServer_queued [where env = ann]
        marked_toggleFileComplete before mounted_state ann_def)
  show ?thesis
    using unregistered connecting before(2) after sent by simp
qed

section \<open>Renaming\<close>

lemma trim_empty_iff: "trim s = [] \<longleftrightarrow> (\<forall>c\<in>set s. isWhiteSpace c)"
proof
  assume "trim s = []"
  then have "dropWhile isWhiteSpace (rev (dropWhile isWhiteSpace s)) = []"
    by (simp add: trim_def)
  then have "\<forall>c\<in>set (dropWhile isWhiteSpace s). isWhiteSpace c"
    by simp
  then have "dropWhile isWhiteSpace s = []"
    using hd_dropWhile [of isWhiteSpace s] by (cases "dropWhile isWhiteSpace s") auto
  then show "\<forall>c\<in>set s. isWhiteSpace c"
    by simp
next
  assume "\<forall>c\<in>set s. isWhiteSpace c"
  then have "dropWhile isWhiteSpace s = []"
    by simp
  then show "trim s = []"
    unfolding trim_def by (simp only: rev.simps dropWhile.simps)
qed

lemma openSocket_identity [simp]:
  "openSocket (st\<lparr>usernameState := n\<rparr>) = openSocket st"
  "openSocket (st\<lparr>localStorage := l\<rparr>) = openSocket st"
  "openSocket (st\<lparr>isConnected := b\<rparr>) = openSocket st"
  "openSocket (st\<lparr>leaderboard := e\<rparr>) = openSocket st"
  by (simp_all add: openSocket_def cong: option.case_cong)

text \<open>
  Claim C7. For an input that consists of whitespace only (the empty string included),
  \<open>updateUsername\<close> changes nothing: the username state, \<open>localStorage\<close> and the messages
  sent are what they were. For every other input the username state becomes the input, it
  is stored under \<open>progress-username\<close>, and a \<open>set_username\<close> message is sent on the socket
  of \<open>wsRef\<close> when that socket is open, and no message otherwise.
\<close>

theorem updateUsername_blank:
  "((\<forall>c\<in>set newUsername. isWhiteSpace c) \<longrightarrow> updateUsername newUsername st = st)
   \<and> (\<not> (\<forall>c\<in>set newUsername. isWhiteSpace c) \<longrightarrow>
        usernameState (updateUsername newUsername st) = newUsername
      \<and> localStorage (updateUsername newUsername st)
          = (localStorage st)(str ''progress-username'' \<mapsto> newUsername)
      \<and> (openSocket st = Some ws \<longrightarrow>
            wire (updateUsername newUsername st) = wire st @ [(ws, msg_set_username newUsername)])
      \<and> (openSocket st = None \<longrightarrow> wire (updateUsername newUsername st) = wire st))"
proof (cases "\<forall>c\<in>set newUsername. isWhiteSpace c")
  case True
  then have "trim newUsername = []" by (simp add: trim_empty_iff)
  then show ?thesis using True by (simp add: updateUsername_def)
next
  case False
  then have "trim newUsername \<noteq> []" by (simp add: trim_empty_iff)
  then show ?thesis
    using False
    by (cases "openSocket st") (auto simp: updateUsername_def Let_def ws_send_def)
qed

theorem updateUsername_blank_witness:
  "list_all isWhiteSpace (str ''  '') \<and> updateUsername (str ''  '') online = online
   \<and> \<not> (\<forall>c\<in>set (str ''Bob''). isWhiteSpace c)
   \<and> openSocket online = Some 0
   \<and> usernameState (updateUsername (str ''Bob'') online) = str ''Bob''
   \<and> localStorage (updateUsername (str ''Bob'') online) (str ''progress-username'')
       = Some (str ''Bob'')
   \<and> wire (updateUsername (str ''Bob'') online)
       = [(0, msg_request_leaderboard (str ''c1'')), (0, msg_set_username (str ''Bob''))]
   \<and> openSocket mounted = None
   \<and> wire (updateUsername (str ''Bob'') mounted) = []"
  using updateUsername_blank [where newUsername = "str ''  ''" and st = online and ws = 0]
    updateUsername_blank [where newUsername = "str ''Bob''" and st = online and ws = 0]
    updateUsername_blank [where newUsername = "str ''Bob''" and st = mounted and ws = 0]
  by (simp add: online_state mounted_state str_def isWhiteSpace_def)

section \<open>The rank of the local user\<close>

lemma findIndexFrom_none:
  "(\<forall>x\<in>set xs. \<not> P x) \<Longrightarrow> findIndexFrom k P xs = -1"
  by (induction xs arbitrary: k) auto

lemma findIndexFrom_first:
  "i < length xs \<Longrightarrow> P (xs ! i) \<Longrightarrow> (\<forall>j<i. \<not> P (xs ! j)) \<Longrightarrow>
     findIndexFrom k P xs = k + int i"
proof (induction xs arbitrary: k i)
  case Nil
  then show ?case by simp
next
  case (Cons x xs)
  show ?case
  proof (cases i)
    case 0
    then show ?thesis using Cons.prems by simp
  next
    case (Suc n)
    then have "\<not> P x" using Cons.prems(3) by auto
    moreover have "findIndexFrom (k + 1) P xs = k + 1 + int n"
      using Cons.prems Suc by (intro Cons.IH) auto
    ultimately show ?thesis using Suc by simp
  qed
qed

text \<open>
  Claim C4. After a leaderboard for the hook's course has been received,
  \<open>currentUserRank\<close> is the 1-based position of the first entry whose \<open>userId\<close> is the
  local user id (\<open>i + 1\<close> for the index \<open>i\<close> of that entry); it is \<open>null\<close> when no entry
  has that user id, and when the local user id is \<open>null\<close> or empty.
\<close>

theorem currentUserRank_position:
  "(userIdState st = Some uid \<and> uid \<noteq> [] \<and> i < length entries \<and> userId (entries ! i) = uid
      \<and> (\<forall>j<i. userId (entries ! j) \<noteq> uid) \<longrightarrow>
      currentUserRank (ws_onmessage env (msg_leaderboard_update (r_courseId env) entries) st)
        = Some (int i + 1))
   \<and> (userIdState st = Some uid \<and> (\<forall>e\<in>set entries. userId e \<noteq> uid) \<longrightarrow>
      currentUserRank (ws_onmessage env (msg_leaderboard_update (r_courseId env) entries) st)
        = None)
   \<and> (userIdState st = None \<or> userIdState st = Some [] \<longrightarrow>
      currentUserRank (ws_onmessage env (msg_leaderboard_update (r_courseId env) entries) st)
        = None)"
proof -
  let ?st = "ws_onmessage env (msg_leaderboard_update (r_courseId env) entries) st"
  have st: "leaderboard ?st = entries" "userIdState ?st = userIdState st"
    by (simp_all add: ws_onmessage_def)
  have found: "currentUserRank ?st = Some (int i + 1)"
    if "userIdState st = Some uid" "uid \<noteq> []" "i < length entries" "userId (entries ! i) = uid"
      "\<forall>j<i. userId (entries ! j) \<noteq> uid"
    using that findIndexFrom_first [of i entries "\<lambda>entry. userId entry = uid" 0]
    by (simp add: currentUserRank_def st findIndex_def)
  have absent: "currentUserRank ?st = None"
    if "userIdState st = Some uid" "\<forall>e\<in>set entries. userId e \<noteq> uid"
    using that findIndexFrom_none [of entries "\<lambda>entry. userId entry = uid" 0]
    by (simp add: currentUserRank_def st findIndex_def)
  have unset: "currentUserRank ?st = None" if "userIdState st = None \<or> userIdState st = Some []"
    using that by (auto simp: currentUserRank_def st)
  show ?thesis using found absent unset by blast
qed

theorem currentUserRank_position_witness:
  "userIdState online = Some (str ''u1'') \<and> str ''u1'' \<noteq> [] \<and> 1 < length board
   \<and> userId (board ! 1) = str ''u1'' \<and> userId (board ! 0) \<noteq> str ''u1''
   \<and> currentUserRank (ws_onmessage ann (msg_leaderboard_update (r_courseId ann) board) online)
       = Some 2
   \<and> userId (entry ''u2'' ''Bea'' 5 10 50) \<noteq> str ''u1''
   \<and> currentUserRank (ws_onmessage ann
         (msg_leaderboard_update (r_courseId ann) [entry ''u2'' ''Bea'' 5 10 50]) online) = None
   \<and> userIdState (initialClient Map.empty) = None
   \<and> currentUserRank (ws_onmessage ann (msg_leaderboard_update (r_courseId ann) board)
         (initialClient Map.empty)) = None"
  using currentUserRank_position [where st = online and uid = "str ''u1''" and i = 1
      and entries = board and env = ann]
    currentUserRank_position [where st = online and uid = "str ''u1''" and i = 0
      and entries = "[entry ''u2'' ''Bea'' 5 10 50]" and env = ann]
    currentUserRank_position [where st = "initialClient Map.empty" and uid = "str ''u1''"
      and i = 0 and entries = board and env = ann]
  by (simp add: online_state board_def entry_def str_def initialClient_def)

section \<open>The rename scenario evaluated\<close>

lemma online_rest:
  "connectEffectDeps online = Some ann"
  "reconnectTimeoutRef online = None"
  "timers online = []"
  "leaderboard online = []"
  by (simp_all add: scenario_defs ann_def)

lemma renaming_state:
  "wsRef renaming = Some 0"
  "sockets renaming = [\<lparr>readyState = OPEN, handlers = ann\<rparr>]"
  "sendProgressUpdateHook renaming = Some ann"
  "wire renaming = [(0, msg_request_leaderboard (str ''c1'')), (0, msg_set_username (str ''Bob''))]"
  "pendingUpdatesRef renaming = []"
  "usernameState renaming = str ''Bob''"
  "timers renaming = []"
  "progress renaming = Map.empty"
  "reconnectTimeoutRef renaming = None"
  "connectEffectDeps renaming = Some ann"
  "userIdState renaming = Some (str ''u1'')"
  by (simp_all add: renaming_def updateUsername_def online_state online_rest trim_def str_def
      isWhiteSpace_def ws_send_def Let_def)

lemma renamed_state:
  "wsRef renamed = Some 1"
  "sockets renamed = [\<lparr>readyState = CLOSING, handlers = ann\<rparr>,
                      \<lparr>readyState = CONNECTING, handlers = bob\<rparr>]"
  "sendProgressUpdateHook renamed = Some bob"
  "wire renamed = [(0, msg_request_leaderboard (str ''c1'')), (0, msg_set_username (str ''Bob''))]"
  "pendingUpdatesRef renamed = []"
  "usernameState renamed = str ''Bob''"
  "timers renamed = []"
  "progress renamed = Map.empty"
  "reconnectTimeoutRef renamed = None"
  "connectEffectDeps renamed = Some bob"
  "userIdState renamed = Some (str ''u1'')"
  by (simp_all add: renamed_def commitRender_def exposeEffect_def connectEffect_def
      currentRender_def renaming_state str_def Let_def ann_def bob_def connectCleanup_def
      ws_close_def setReadyState_def connect_def)


lemma replaced_state:
  "wsRef replaced = Some 1"
  "sockets replaced = [\<lparr>readyState = CLOSED, handlers = ann\<rparr>,
                       \<lparr>readyState = OPEN, handlers = bob\<rparr>]"
  "sendProgressUpdateHook replaced = Some bob"
  "wire replaced = [(0, msg_request_leaderboard (str ''c1'')), (0, msg_set_username (str ''Bob'')),
                    (1, msg_request_leaderboard (str ''c1''))]"
  "pendingUpdatesRef replaced = []"
  "usernameState replaced = str ''Bob''"
  "timers replaced = [\<lparr>delay = 3000, callback = ann, pending = True\<rparr>]"
  "progress replaced = Map.empty"
  "reconnectTimeoutRef replaced = Some 0"
  by (simp_all add: replaced_def renamed_state close_event_def ws_onclose_def open_event_def
      ws_onopen_def setReadyState_def ws_send_def Let_def bob_def)

lemma staleRetry_state:
  "wsRef staleRetry = Some 2"
  "sockets staleRetry = [\<lparr>readyState = CLOSED, handlers = ann\<rparr>,
                         \<lparr>readyState = OPEN, handlers = bob\<rparr>,
                         \<lparr>readyState = CONNECTING, handlers = ann\<rparr>]"
  "sendProgressUpdateHook staleRetry = Some bob"
  "wire staleRetry = [(0, msg_request_leaderboard (str ''c1'')), (0, msg_set_username (str ''Bob'')),
                      (1, msg_request_leaderboard (str ''c1''))]"
  "pendingUpdatesRef staleRetry = []"
  "usernameState staleRetry = str ''Bob''"
  "timers staleRetry = [\<lparr>delay = 3000, callback = ann, pending = False\<rparr>]"
  "progress staleRetry = Map.empty"
  "openSocket staleRetry = None"
  by (simp_all add: staleRetry_def replaced_state timer_event_def clearTimeout_def connect_def
      ann_def openSocket_def str_def)

lemma staleQueued_state:
  "wsRef staleQueued = Some 2"
  "sockets staleQueued = sockets staleRetry"
  "wire staleQueued = wire staleRetry"
  "pendingUpdatesRef staleQueued
     = [\<lparr>courseId = str ''c1'', fileKey = str ''1-a'', isComplete = True\<rparr>]"
  "usernameState staleQueued = str ''Bob''"
  by (simp_all add: staleQueued_def toggleFileComplete_def sendProgressToServer_def
      sendProgressUpdate_def staleRetry_state courseProgressOf_def marked_def Let_def bob_def
      plain_keys)

section \<open>The display order of the leaderboard\<close>

lemma compareEntries_le:
  "compareEntries a b \<le> 0 \<longleftrightarrow>
     percentage b < percentage a \<or> (percentage a = percentage b \<and> completed b \<le> completed a)"
  by (auto simp: compareEntries_def)

lemma compareEntries_total: "compareEntries a b \<le> 0 \<or> compareEntries b a \<le> 0"
  by (auto simp: compareEntries_le)

lemma compareEntries_trans:
  "compareEntries a b \<le> 0 \<Longrightarrow> compareEntries b c \<le> 0 \<Longrightarrow> compareEntries a c \<le> 0"
  by (auto simp: compareEntries_le)

lemma mset_insertBy: "mset (insertBy cmp x xs) = add_mset x (mset xs)"
  by (induction xs) auto

lemma set_insertBy: "set (insertBy cmp x xs) = insert x (set xs)"
  by (induction xs) auto

lemma mset_Array_sort: "mset (Array_sort cmp xs) = mset xs"
  by (induction xs) (auto simp: Array_sort_def mset_insertBy)

lemma ranked_insertBy:
  assumes "sorted_wrt (\<lambda>a b. compareEntries a b \<le> 0) xs"
  shows "sorted_wrt (\<lambda>a b. compareEntries a b \<le> 0) (insertBy compareEntries x xs)"
  using assms
proof (induction xs)
  case Nil
  then show ?case by simp
next
  case (Cons y ys)
  show ?case
  proof (cases "compareEntries x y \<le> 0")
    case True
    then have "\<forall>z\<in>set ys. compareEntries x z \<le> 0"
      using Cons.prems compareEntries_trans by auto
    then show ?thesis using True Cons.prems by simp
  next
    case False
    then have "compareEntries y x \<le> 0"
      using compareEntries_total [of x y] by simp
    then show ?thesis
      using False Cons by (simp add: set_insertBy)
  qed
qed

lemma ranked_sortedEntries:
  "sorted_wrt (\<lambda>a b. compareEntries a b \<le> 0) (sortedEntries entries)"
  by (induction entries) (simp_all add: sortedEntries_def Array_sort_def ranked_insertBy)

text \<open>
  Claim C2. \<open>sortedEntries\<close> is a rearrangement of the entries in which an entry with a
  greater percentage stands before every entry with a smaller one, and of two entries with
  equal percentage the one with the greater \<open>completed\<close> stands first: for positions \<open>i\<close>
  and \<open>j\<close> of the sorted list, if the entry at \<open>i\<close> has the greater percentage, or the
  same percentage and the greater \<open>completed\<close>, then \<open>i < j\<close>. The comparator is a
  consistent total preorder on integers, for which every stable sort returns the same list.
\<close>

theorem sortedEntries_order:
  "mset (sortedEntries entries) = mset entries
   \<and> (i < length (sortedEntries entries) \<and> j < length (sortedEntries entries)
        \<and> percentage (sortedEntries entries ! i) > percentage (sortedEntries entries ! j)
      \<longrightarrow> i < j)
   \<and> (i < length (sortedEntries entries) \<and> j < length (sortedEntries entries)
        \<and> percentage (sortedEntries entries ! i) = percentage (sortedEntries entries ! j)
        \<and> completed (sortedEntries entries ! i) > completed (sortedEntries entries ! j)
      \<longrightarrow> i < j)"
proof -
  let ?s = "sortedEntries entries"
  have before: "compareEntries (?s ! j) (?s ! i) \<le> 0" if "j < i" "i < length ?s"
    using ranked_sortedEntries [of entries] that by (simp add: sorted_wrt_iff_nth_less)
  have same: "compareEntries (?s ! i) (?s ! i) \<le> 0"
    by (simp add: compareEntries_def)
  have ahead: "i < j" if "i < length ?s" "compareEntries (?s ! j) (?s ! i) > 0"
  proof (rule ccontr)
    assume "\<not> i < j"
    then have "j < i \<or> j = i" by auto
    then have "compareEntries (?s ! j) (?s ! i) \<le> 0"
      using before that(1) same by auto
    then show False using that(2) by simp
  qed
  have pct: "i < j" if "i < length ?s" "percentage (?s ! i) > percentage (?s ! j)"
    using that by (intro ahead) (simp_all add: compareEntries_def)
  have cnt: "i < j" if "i < length ?s" "percentage (?s ! i) = percentage (?s ! j)"
      "completed (?s ! i) > completed (?s ! j)"
    using that by (intro ahead) (simp_all add: compareEntries_def)
  show ?thesis
    using pct cnt by (simp add: sortedEntries_def mset_Array_sort)
qed

theorem sortedEntries_order_witness:
  "sortedEntries [entry ''u3'' ''Cy'' 3 10 30, entry ''u1'' ''Ann'' 4 13 30, entry ''u2'' ''Bea'' 5 10 50]
     = [entry ''u2'' ''Bea'' 5 10 50, entry ''u1'' ''Ann'' 4 13 30, entry ''u3'' ''Cy'' 3 10 30]
   \<and> (0::nat) < 3 \<and> (1::nat) < 3 \<and> (2::nat) < 3
   \<and> percentage (entry ''u2'' ''Bea'' 5 10 50) > percentage (entry ''u1'' ''Ann'' 4 13 30)
   \<and> percentage (entry ''u1'' ''Ann'' 4 13 30) = percentage (entry ''u3'' ''Cy'' 3 10 30)
   \<and> completed (entry ''u1'' ''Ann'' 4 13 30) > completed (entry ''u3'' ''Cy'' 3 10 30)
   \<and> (0::nat) < 1 \<and> (1::nat) < 2"
  using sortedEntries_order [where i = 0 and j = 1
      and entries = "[entry ''u3'' ''Cy'' 3 10 30, entry ''u1'' ''Ann'' 4 13 30, entry ''u2'' ''Bea'' 5 10 50]"]
    sortedEntries_order [where i = 1 and j = 2
      and entries = "[entry ''u3'' ''Cy'' 3 10 30, entry ''u1'' ''Ann'' 4 13 30, entry ''u2'' ''Bea'' 5 10 50]"]
  by (simp add: sortedEntries_def Array_sort_def compareEntries_def entry_def)

section \<open>The offline queue\<close>

lemma sendProgressUpdate_offline:
  assumes "openSocket st = None"
  shows "sendProgressUpdate env fkey flag st
           = st\<lparr>pendingUpdatesRef := pendingUpdatesRef st @ [issued (env, fkey, flag)]\<rparr>"
  using assms by (simp add: sendProgressUpdate_def)

lemma sendProgressUpdates_offline:
  assumes "openSocket st = None"
  shows "sendProgressUpdates calls st
           = st\<lparr>pendingUpdatesRef := pendingUpdatesRef st @ map issued calls\<rparr>"
  using assms
proof (induction calls arbitrary: st)
  case Nil
  then show ?case by simp
next
  case (Cons call calls)
  obtain env fkey flag where call: "call = (env, fkey, flag)"
    by (cases call) auto
  let ?st1 = "sendProgressUpdate env fkey flag st"
  have st1: "?st1 = st\<lparr>pendingUpdatesRef := pendingUpdatesRef st @ [issued call]\<rparr>"
    using Cons.prems call by (simp add: sendProgressUpdate_offline)
  have "openSocket ?st1 = None"
    using Cons.prems by simp
  then have "sendProgressUpdates calls ?st1
      = ?st1\<lparr>pendingUpdatesRef := pendingUpdatesRef ?st1 @ map issued calls\<rparr>"
    by (rule Cons.IH)
  then show ?case
    using call by (simp add: st1)
qed

lemma flush_foldl:
  "foldl (\<lambda>s update. ws_send ws (f update) s) st updates
     = st\<lparr>wire := wire st @ map (\<lambda>update. (ws, f update)) updates\<rparr>"
  by (induction updates arbitrary: st) (simp_all add: ws_send_def)

lemma ws_onopen_eq:
  "ws_onopen env ws st
     = st\<lparr>isConnected := True,
          wire := wire st @ map (\<lambda>update. (ws, flushMessage env update)) (pendingUpdatesRef st)
                    @ [(ws, msg_request_leaderboard (r_courseId env))],
          pendingUpdatesRef := []\<rparr>"
proof -
  let ?st1 = "st\<lparr>isConnected := True\<rparr>"
  have flushed: "foldl (\<lambda>s update. ws_send ws (flushMessage env update) s) ?st1 (pendingUpdatesRef ?st1)
      = ?st1\<lparr>wire := wire st @ map (\<lambda>update. (ws, flushMessage env update)) (pendingUpdatesRef st)\<rparr>"
    by (simp only: flush_foldl) simp
  show ?thesis
  proof (cases "pendingUpdatesRef st = []")
    case True
    then show ?thesis by (simp add: ws_onopen_def Let_def ws_send_def)
  next
    case False
    then have "length (pendingUpdatesRef ?st1) > 0" by simp
    then have "ws_onopen env ws st
        = ws_send ws (msg_request_leaderboard (r_courseId env))
            ((foldl (\<lambda>s update. ws_send ws (flushMessage env update) s) ?st1
                (pendingUpdatesRef ?st1))\<lparr>pendingUpdatesRef := []\<rparr>)"
      by (simp only: ws_onopen_def Let_def if_True)
    then show ?thesis
      by (simp only: flushed) (simp add: ws_send_def)
  qed
qed

lemma open_event_eq:
  assumes "ws < length (sockets st)" "readyState (sockets st ! ws) = CONNECTING"
  shows "open_event ws st
     = st\<lparr>sockets := (sockets st)[ws := (sockets st ! ws)\<lparr>readyState := OPEN\<rparr>],
          isConnected := True,
          wire := wire st
                    @ map (\<lambda>update. (ws, flushMessage (handlers (sockets st ! ws)) update))
                        (pendingUpdatesRef st)
                    @ [(ws, msg_request_leaderboard (r_courseId (handlers (sockets st ! ws))))],
          pendingUpdatesRef := []\<rparr>"
  using assms by (simp add: open_event_def ws_onopen_eq setReadyState_def)

text \<open>
  Claim C3. While the socket of \<open>wsRef\<close> is not open, a sequence of \<open>sendProgressUpdate\<close>
  calls appends one update per call to the pending queue, in the order of the calls, and
  sends nothing. When a connecting socket then opens, its \<open>onopen\<close> handler sends the
  queued updates on that socket in queue order, one \<open>progress_update\<close> message each,
  followed by \<open>request_leaderboard\<close>, and leaves the queue empty; with an empty queue an
  opening socket sends \<open>request_leaderboard\<close> only, so no update is sent a second time.
\<close>

theorem offline_queue_fifo:
  "(openSocket st = None \<longrightarrow>
      pendingUpdatesRef (sendProgressUpdates calls st) = pendingUpdatesRef st @ map issued calls
    \<and> wire (sendProgressUpdates calls st) = wire st
    \<and> sockets (sendProgressUpdates calls st) = sockets st
    \<and> openSocket (sendProgressUpdates calls st) = None)
   \<and> (ws < length (sockets st) \<and> readyState (sockets st ! ws) = CONNECTING \<longrightarrow>
      wire (open_event ws st)
        = wire st
          @ map (\<lambda>update. (ws, msg_progress_update (courseId update) (fileKey update)
                                 (isComplete update) (r_username (handlers (sockets st ! ws)))))
              (pendingUpdatesRef st)
          @ [(ws, msg_request_leaderboard (r_courseId (handlers (sockets st ! ws))))]
    \<and> pendingUpdatesRef (open_event ws st) = []
    \<and> isConnected (open_event ws st))"
proof -
  have queued: "pendingUpdatesRef (sendProgressUpdates calls st) = pendingUpdatesRef st @ map issued calls
    \<and> wire (sendProgressUpdates calls st) = wire st
    \<and> sockets (sendProgressUpdates calls st) = sockets st
    \<and> openSocket (sendProgressUpdates calls st) = None" if "openSocket st = None"
    using that by (simp add: sendProgressUpdates_offline)
  have flushed: "wire (open_event ws st)
        = wire st
          @ map (\<lambda>update. (ws, msg_progress_update (courseId update) (fileKey update)
                                 (isComplete update) (r_username (handlers (sockets st ! ws)))))
              (pendingUpdatesRef st)
          @ [(ws, msg_request_leaderboard (r_courseId (handlers (sockets st ! ws))))]
    \<and> pendingUpdatesRef (open_event ws st) = []
    \<and> isConnected (open_event ws st)"
    if "ws < length (sockets st)" "readyState (sockets st ! ws) = CONNECTING"
    using that by (simp add: open_event_eq flushMessage_def)
  show ?thesis using queued flushed by blast
qed

theorem offline_queue_fifo_witness:
  "openSocket mounted = None
   \<and> pendingUpdatesRef
        (sendProgressUpdates [(ann, str ''1-a'', True), (ann, str ''1-b'', False)] mounted)
       = [\<lparr>courseId = str ''c1'', fileKey = str ''1-a'', isComplete = True\<rparr>,
          \<lparr>courseId = str ''c1'', fileKey = str ''1-b'', isComplete = False\<rparr>]
   \<and> wire (sendProgressUpdates [(ann, str ''1-a'', True), (ann, str ''1-b'', False)] mounted) = []
   \<and> 0 < length (sockets
        (sendProgressUpdates [(ann, str ''1-a'', True), (ann, str ''1-b'', False)] mounted))
   \<and> readyState (sockets
        (sendProgressUpdates [(ann, str ''1-a'', True), (ann, str ''1-b'', False)] mounted) ! 0)
       = CONNECTING
   \<and> wire (open_event 0
        (sendProgressUpdates [(ann, str ''1-a'', True), (ann, str ''1-b'', False)] mounted))
       = [(0, msg_progress_update (str ''c1'') (str ''1-a'') True (str ''Ann'')),
          (0, msg_progress_update (str ''c1'') (str ''1-b'') False (str ''Ann'')),
          (0, msg_request_leaderboard (str ''c1''))]
   \<and> pendingUpdatesRef (open_event 0
        (sendProgressUpdates [(ann, str ''1-a'', True), (ann, str ''1-b'', False)] mounted)) = []"
  using offline_queue_fifo [where st = mounted and ws = 0
      and calls = "[(ann, str ''1-a'', True), (ann, str ''1-b'', False)]"]
    offline_queue_fifo [where ws = 0 and calls = "[]"
      and st = "sendProgressUpdates [(ann, str ''1-a'', True), (ann, str ''1-b'', False)] mounted"]
  by (simp add: mounted_state ann_def)

section \<open>Reconnecting\<close>

lemma close_event_eq:
  assumes "ws < length (sockets st)" "readyState (sockets st ! ws) \<noteq> CLOSED"
  shows "close_event ws st
     = st\<lparr>sockets := (sockets st)[ws := (sockets st ! ws)\<lparr>readyState := CLOSED\<rparr>],
          isConnected := False,
          timers := timers st
            @ [\<lparr>delay = 3000, callback = handlers (sockets st ! ws), pending = True\<rparr>],
          reconnectTimeoutRef := Some (length (timers st))\<rparr>"
  using assms by (simp add: close_event_def ws_onclose_def setReadyState_def Let_def)

lemma connect_eq:
  assumes "r_userId env = Some uid" "uid \<noteq> []" "urlOk uid"
  shows "connect urlOk env st
     = st\<lparr>sockets := sockets st @ [\<lparr>readyState = CONNECTING, handlers = env\<rparr>],
          wsRef := Some (length (sockets st))\<rparr>"
  using assms by (simp add: connect_def)

lemma reconnectRound_eq:
  assumes "wsRef st = Some ws" "ws < length (sockets st)" "readyState (sockets st ! ws) \<noteq> CLOSED"
    and "handlers (sockets st ! ws) = env"
    and "r_userId env = Some uid" "uid \<noteq> []" "urlOk uid"
  shows "reconnectRound urlOk st
     = st\<lparr>sockets := (sockets st)[ws := (sockets st ! ws)\<lparr>readyState := CLOSED\<rparr>]
                      @ [\<lparr>readyState = CONNECTING, handlers = env\<rparr>],
          wsRef := Some (length (sockets st)),
          isConnected := False,
          timers := timers st @ [\<lparr>delay = 3000, callback = env, pending = False\<rparr>],
          reconnectTimeoutRef := Some (length (timers st))\<rparr>"
proof -
  let ?st1 = "close_event ws st"
  have st1: "?st1 = st\<lparr>sockets := (sockets st)[ws := (sockets st ! ws)\<lparr>readyState := CLOSED\<rparr>],
          isConnected := False,
          timers := timers st @ [\<lparr>delay = 3000, callback = env, pending = True\<rparr>],
          reconnectTimeoutRef := Some (length (timers st))\<rparr>"
    using assms(2,3,4) by (simp add: close_event_eq)
  have fire: "timer_event urlOk (length (timers st)) ?st1
      = connect urlOk env (clearTimeout (length (timers st)) ?st1)"
    by (simp add: st1 timer_event_def)
  have cleared: "clearTimeout (length (timers st)) ?st1
      = ?st1\<lparr>timers := timers st @ [\<lparr>delay = 3000, callback = env, pending = False\<rparr>]\<rparr>"
    by (simp add: st1 clearTimeout_def)
  have "reconnectRound urlOk st = timer_event urlOk (length (timers st)) ?st1"
    using assms(1) by (simp add: reconnectRound_def Let_def st1)
  then show ?thesis
    by (simp add: fire cleared connect_eq [where urlOk = urlOk, OF assms(5,6,7)]) (simp add: st1)
qed

lemma reconnectRound_attempting:
  assumes "attempting env st" "r_userId env = Some uid" "uid \<noteq> []" "urlOk uid"
  shows "attempting env (reconnectRound urlOk st)"
    and "timers (reconnectRound urlOk st)
           = timers st @ [\<lparr>delay = 3000, callback = env, pending = False\<rparr>]"
    and "length (sockets (reconnectRound urlOk st)) = Suc (length (sockets st))"
    and "\<not> isConnected (reconnectRound urlOk st)"
proof -
  obtain ws where ws: "wsRef st = Some ws" "ws < length (sockets st)"
      "readyState (sockets st ! ws) \<noteq> CLOSED" "handlers (sockets st ! ws) = env"
    using assms(1) by (auto simp: attempting_def split: option.splits)
  note eq = reconnectRound_eq [where urlOk = urlOk, OF ws assms(2,3,4)]
  show "attempting env (reconnectRound urlOk st)"
    by (simp add: eq attempting_def nth_append)
  show "timers (reconnectRound urlOk st)
           = timers st @ [\<lparr>delay = 3000, callback = env, pending = False\<rparr>]"
    by (simp add: eq)
  show "length (sockets (reconnectRound urlOk st)) = Suc (length (sockets st))"
    by (simp add: eq)
  show "\<not> isConnected (reconnectRound urlOk st)"
    by (simp add: eq)
qed

lemma reconnectRounds_attempting:
  assumes "attempting env st" "r_userId env = Some uid" "uid \<noteq> []" "urlOk uid"
  shows "attempting env ((reconnectRound urlOk ^^ n) st)
     \<and> timers ((reconnectRound urlOk ^^ n) st)
         = timers st @ replicate n \<lparr>delay = 3000, callback = env, pending = False\<rparr>
     \<and> length (sockets ((reconnectRound urlOk ^^ n) st)) = length (sockets st) + n"
proof (induction n)
  case 0
  then show ?case using assms(1) by simp
next
  case (Suc n)
  let ?st = "(reconnectRound urlOk ^^ n) st"
  have a: "attempting env ?st" using Suc by simp
  show ?case
    using reconnectRound_attempting [where urlOk = urlOk, OF a assms(2,3,4)] Suc
    by (simp add: replicate_append_same)
qed

text \<open>
  Claim C8. When a socket closes (the browser delivers the close event after an error as
  after a normal close), \<open>isConnected\<close> becomes false and a timer with a delay of 3000
  milliseconds is set, stored in \<open>reconnectTimeoutRef\<close>, that calls the \<open>connect\<close> of the
  socket's handlers. When it fires, \<open>connect\<close> makes a new socket with the same handlers
  (the user id of the closure is set and the URL was accepted for the socket that closed).
  This repeats for any number \<open>n\<close> of closes: after \<open>n\<close> rounds of close and timer the
  channel is again attempting a connection, \<open>n\<close> timers have been set, each with the same
  delay of 3000, and \<open>n\<close> new sockets have been made. No counter and no growing delay is
  kept anywhere in the state.
\<close>

theorem reconnect_forever:
  "(ws < length (sockets st) \<and> readyState (sockets st ! ws) \<noteq> CLOSED \<longrightarrow>
      \<not> isConnected (close_event ws st)
    \<and> timers (close_event ws st)
        = timers st @ [\<lparr>delay = 3000, callback = handlers (sockets st ! ws), pending = True\<rparr>]
    \<and> reconnectTimeoutRef (close_event ws st) = Some (length (timers st)))
   \<and> (attempting env st \<and> r_userId env = Some uid \<and> uid \<noteq> [] \<and> urlOk uid \<longrightarrow>
      attempting env ((reconnectRound urlOk ^^ n) st)
    \<and> timers ((reconnectRound urlOk ^^ n) st)
        = timers st @ replicate n \<lparr>delay = 3000, callback = env, pending = False\<rparr>
    \<and> length (sockets ((reconnectRound urlOk ^^ n) st)) = length (sockets st) + n
    \<and> (0 < n \<longrightarrow> \<not> isConnected ((reconnectRound urlOk ^^ n) st)))"
proof -
  have closed: "\<not> isConnected (close_event ws st)
    \<and> timers (close_event ws st)
        = timers st @ [\<lparr>delay = 3000, callback = handlers (sockets st ! ws), pending = True\<rparr>]
    \<and> reconnectTimeoutRef (close_event ws st) = Some (length (timers st))"
    if "ws < length (sockets st)" "readyState (sockets st ! ws) \<noteq> CLOSED"
    using that by (simp add: close_event_eq)
  have rounds: "attempting env ((reconnectRound urlOk ^^ n) st)
    \<and> timers ((reconnectRound urlOk ^^ n) st)
        = timers st @ replicate n \<lparr>delay = 3000, callback = env, pending = False\<rparr>
    \<and> length (sockets ((reconnectRound urlOk ^^ n) st)) = length (sockets st) + n
    \<and> (0 < n \<longrightarrow> \<not> isConnected ((reconnectRound urlOk ^^ n) st))"
    if h: "attempting env st" "r_userId env = Some uid" "uid \<noteq> []" "urlOk uid"
  proof -
    have offline: "\<not> isConnected ((reconnectRound urlOk ^^ n) st)" if pos: "0 < n"
    proof -
      obtain m where n: "n = Suc m" using pos by (cases n) auto
      have "attempting env ((reconnectRound urlOk ^^ m) st)"
        using reconnectRounds_attempting [where urlOk = urlOk and n = m, OF h] by simp
      then show ?thesis
        using reconnectRound_attempting(4) [where urlOk = urlOk, OF _ h(2,3,4)] n by simp
    qed
    show ?thesis
      using reconnectRounds_attempting [where urlOk = urlOk and n = n, OF h] offline by simp
  qed
  show ?thesis using closed rounds by blast
qed

theorem reconnect_forever_witness:
  "0 < length (sockets online) \<and> readyState (sockets online ! 0) \<noteq> CLOSED
   \<and> \<not> isConnected (close_event 0 online)
   \<and> timers (close_event 0 online) = [\<lparr>delay = 3000, callback = ann, pending = True\<rparr>]
   \<and> reconnectTimeoutRef (close_event 0 online) = Some 0
   \<and> attempting ann online \<and> r_userId ann = Some (str ''u1'') \<and> str ''u1'' \<noteq> []
   \<and> attempting ann ((reconnectRound (\<lambda>uid. True) ^^ 3) online)
   \<and> timers ((reconnectRound (\<lambda>uid. True) ^^ 3) online)
       = [\<lparr>delay = 3000, callback = ann, pending = False\<rparr>,
          \<lparr>delay = 3000, callback = ann, pending = False\<rparr>,
          \<lparr>delay = 3000, callback = ann, pending = False\<rparr>]
   \<and> length (sockets ((reconnectRound (\<lambda>uid. True) ^^ 3) online)) = 4
   \<and> \<not> isConnected ((reconnectRound (\<lambda>uid. True) ^^ 3) online)"
  using reconnect_forever [where st = online and ws = 0 and env = ann and uid = "str ''u1''"
      and urlOk = "\<lambda>uid. True" and n = 3]
  by (simp add: online_state online_rest attempting_def ann_def str_def numeral_3_eq_3)

section \<open>Sockets left over from an earlier render\<close>

text \<open>
  When \<open>username\<close> or \<open>courseId\<close> changes, \<open>connect\<close> is made anew and the connect effect
  runs again: its cleanup clears the reconnect timer and closes the socket of \<open>wsRef\<close>,
  and a new socket is opened whose handlers have the new values. The close event of the
  old socket arrives after the cleanup, and its \<open>onclose\<close> handler sets a new timer for
  the \<open>connect\<close> of the old render, which nothing clears. When that timer fires, a socket
  with the old \<open>username\<close> and \<open>courseId\<close> is made and stored in \<open>wsRef\<close>.
\<close>

text \<open>
  Claim C5: every update flushed from the pending queue when a socket opens is tagged
  with the username that is current at the moment of the flush. The code does not keep
  this in the run \<open>staleQueued\<close>: the user is renamed from \<open>Ann\<close> to \<open>Bob\<close> while
  connected, the replaced socket closes and its timer makes socket 2 with the handlers of
  the old render, and a file is toggled while socket 2 is connecting. When socket 2 opens,
  the queued update is sent as \<open>Ann\<close>, while the username is \<open>Bob\<close> before and after the
  flush.
\<close>

theorem stale_username_flush:
  "usernameState staleQueued = str ''Bob''
   \<and> pendingUpdatesRef staleQueued
       = [\<lparr>courseId = str ''c1'', fileKey = str ''1-a'', isComplete = True\<rparr>]
   \<and> wire (open_event 2 staleQueued)
       = wire staleQueued
         @ [(2, msg_progress_update (str ''c1'') (str ''1-a'') True (str ''Ann'')),
            (2, msg_request_leaderboard (str ''c1''))]
   \<and> usernameState (open_event 2 staleQueued) = str ''Bob''
   \<and> str ''Ann'' \<noteq> str ''Bob''"
  by (simp add: staleQueued_state staleRetry_state open_event_eq flushMessage_def ann_def)
    (simp add: str_def)

lemma switched_state:
  "wsRef switched = Some 1"
  "sockets switched = [\<lparr>readyState = CLOSING, handlers = ann\<rparr>,
                       \<lparr>readyState = CONNECTING, handlers = annOnC2\<rparr>]"
  "sendProgressUpdateHook switched = Some annOnC2"
  "connectEffectDeps switched = Some annOnC2"
  "wire switched = [(0, msg_request_leaderboard (str ''c1''))]"
  "pendingUpdatesRef switched = []"
  "timers switched = []"
  "leaderboard switched = []"
  by (simp_all add: switched_def commitRender_def exposeEffect_def connectEffect_def
      currentRender_def online_state online_rest str_def Let_def ann_def annOnC2_def
      connectCleanup_def ws_close_def setReadyState_def connect_def)

lemma switchedReplaced_state:
  "wsRef switchedReplaced = Some 1"
  "sockets switchedReplaced = [\<lparr>readyState = CLOSED, handlers = ann\<rparr>,
                               \<lparr>readyState = OPEN, handlers = annOnC2\<rparr>]"
  "sendProgressUpdateHook switchedReplaced = Some annOnC2"
  "connectEffectDeps switchedReplaced = Some annOnC2"
  "wire switchedReplaced = [(0, msg_request_leaderboard (str ''c1'')),
                            (1, msg_request_leaderboard (str ''c2''))]"
  "pendingUpdatesRef switchedReplaced = []"
  "timers switchedReplaced = [\<lparr>delay = 3000, callback = ann, pending = True\<rparr>]"
  "leaderboard switchedReplaced = []"
  by (simp_all add: switchedReplaced_def switched_state close_event_def ws_onclose_def
      open_event_def ws_onopen_def setReadyState_def ws_send_def Let_def annOnC2_def)

lemma staleCourse_state:
  "wsRef staleCourse = Some 2"
  "sockets staleCourse = [\<lparr>readyState = CLOSED, handlers = ann\<rparr>,
                          \<lparr>readyState = OPEN, handlers = annOnC2\<rparr>,
                          \<lparr>readyState = OPEN, handlers = ann\<rparr>]"
  "sendProgressUpdateHook staleCourse = Some annOnC2"
  "connectEffectDeps staleCourse = Some annOnC2"
  "wire staleCourse = [(0, msg_request_leaderboard (str ''c1'')),
                       (1, msg_request_leaderboard (str ''c2'')),
                       (2, msg_request_leaderboard (str ''c1''))]"
  "leaderboard staleCourse = []"
  by (simp_all add: staleCourse_def switchedReplaced_state timer_event_def clearTimeout_def
      connect_def open_event_def ws_onopen_def setReadyState_def ws_send_def Let_def ann_def
      str_def)

text \<open>
  Claim C6: a \<open>leaderboard_update\<close> replaces the displayed leaderboard if and only if its
  \<open>courseId\<close> is the course the hook is displaying, and a \<open>leaderboard_update\<close> for any
  other course leaves it unchanged. The code does not keep this in the run \<open>staleCourse\<close>:
  the hook, connected for \<open>c1\<close>, is rendered with \<open>c2\<close>; the replaced socket closes and
  its timer makes socket 2 with the handlers of the render for \<open>c1\<close>, which on opening
  requests the leaderboard of \<open>c1\<close>. The hook displays \<open>c2\<close> (the last render, whose values
  the connect effect and \<open>sendProgressUpdate\<close> hold), and the \<open>leaderboard_update\<close> for
  \<open>c1\<close> that arrives on socket 2 replaces the leaderboard.
\<close>

theorem stale_course_leaderboard:
  "connectEffectDeps staleCourse = Some annOnC2
   \<and> sendProgressUpdateHook staleCourse = Some annOnC2
   \<and> r_courseId annOnC2 = str ''c2''
   \<and> str ''c1'' \<noteq> str ''c2''
   \<and> sockets staleCourse ! 2 = \<lparr>readyState = OPEN, handlers = ann\<rparr>
   \<and> last (wire staleCourse) = (2, msg_request_leaderboard (str ''c1''))
   \<and> leaderboard staleCourse = []
   \<and> leaderboard (message_event 2 (msg_leaderboard_update (str ''c1'') board) staleCourse)
       = board
   \<and> board \<noteq> []"
  by (simp add: staleCourse_state message_event_def ws_onmessage_def ann_def annOnC2_def
      board_def)
    (simp add: str_def)

end
